theory Spec2Isabelle
  imports Main
begin

section \<open>The to-do task list: values, state and platform\<close>

text \<open>
  The program is one browser script. Its module-level state is the variable \<open>tasks\<close>;
  its handlers read the task input field, write the \<open>localStorage\<close> entry
  \<open>pinkTodoTasks\<close>, open \<open>alert\<close> and \<open>confirm\<close> dialogs, schedule timers and
  call \<open>console.error\<close>. The model keeps exactly these parts as an explicit state
  record. \<open>tasks\<close> holds an arbitrary JavaScript value built from JSON data, since
  \<open>loadTasksFromStorage\<close> and \<open>importTasks\<close> assign the result of \<open>JSON.parse\<close> to it.

  Numbers are the integer-valued ones (the ids are \<open>Date.now()\<close> values). A string is
  a sequence of the characters U+0000 to U+00FF, the 256 values of the type \<open>char\<close>.
  Reading a property that is absent gives \<open>undefined\<close>, modelled as \<open>None\<close>; reading a
  property of \<open>null\<close> raises a TypeError.

  Of the console only \<open>console.error\<close> is recorded, by the text of its message (without
  the pictograph in front and without the error object); \<open>console.log\<close>, the focus of
  the input field and the rendering of the page are not part of the state.
\<close>

datatype jsval =
    JNull
  | JBool bool
  | JNum int
  | JStr string
  | JArr "jsval list"
  | JObj "(string \<times> jsval) list"

datatype error = TypeError | ReferenceError

text \<open>\<open>alert(message)\<close> and \<open>confirm(message)\<close>; the message of a \<open>confirm\<close> is a
  template literal with one interpolated number.\<close>

datatype dialog = Alert string | Confirm string nat string

text \<open>The callbacks handed to \<open>setTimeout\<close>: the one in \<open>handleAddTask\<close> that resets the
  border colour of the input, and the one in \<open>deleteTask\<close> that removes the task.\<close>

datatype callback = ResetBorder | RemoveTask int

record app =
  tasks :: jsval
  inputValue :: string
  inputBorderColor :: string
  localStorage :: "string \<rightharpoonup> string"
  dialogs :: "dialog list"
  timers :: "(nat \<times> callback) list"
  console :: "string list"

text \<open>
  What the script calls but does not define. \<open>JSON.stringify\<close> and \<open>JSON.parse\<close> raise
  (\<open>None\<close>) or return; \<open>localStorage.setItem\<close> raises when the storage refuses the
  write (quota exceeded); \<open>renderTasks(); updateStatistics()\<close> work on the page only, and
  whether they raise is decided by the page (\<open>updateStatistics\<close> refers to the name
  \<open>completedTask\<close>, which the script never declares).
\<close>

record platform =
  JSON_stringify :: "jsval \<Rightarrow> string option"
  JSON_parse :: "string \<Rightarrow> jsval option"
  setItem_throws :: "(string \<rightharpoonup> string) \<Rightarrow> string \<Rightarrow> string \<Rightarrow> bool"
  view_raises :: "jsval \<Rightarrow> error option"

definition STORAGE_KEY :: string where
  "STORAGE_KEY = ''pinkTodoTasks''"

text \<open>The state in which \<open>initializeApp\<close> starts: \<open>let tasks = []\<close>, over whatever the
  browser storage holds.\<close>

definition initial :: "(string \<rightharpoonup> string) \<Rightarrow> app" where
  "initial sto =
     \<lparr>tasks = JArr [], inputValue = '''', inputBorderColor = '''',
      localStorage = sto, dialogs = [], timers = [], console = []\<rparr>"

subsection \<open>Strings\<close>

text \<open>
  \<open>String.prototype.trim\<close> strips white space and line terminators from both ends. Among
  the characters up to U+00FF these are the tab, the line feed, the vertical tab, the form
  feed, the carriage return, the space and the no-break space U+00A0.
\<close>

definition is_space :: "char \<Rightarrow> bool" where
  "is_space c = ((of_char c :: nat) \<in> {9, 10, 11, 12, 13, 32, 160})"

definition trim :: "string \<Rightarrow> string" where
  "trim s = rev (dropWhile is_space (rev (dropWhile is_space s)))"

text \<open>
  \<open>String.prototype.toLowerCase\<close> maps each character to its lower-case form. Among the
  characters up to U+00FF the ones that have another lower-case form are A to Z and U+00C0
  to U+00DE without the multiplication sign U+00D7; for each the form is 32 further on.
\<close>

definition lower_char :: "char \<Rightarrow> char" where
  "lower_char c =
     (let n = (of_char c :: nat)
      in if (65 \<le> n \<and> n \<le> 90) \<or> (192 \<le> n \<and> n \<le> 222 \<and> n \<noteq> 215)
         then char_of (n + 32) else c)"

definition toLowerCase :: "string \<Rightarrow> string" where
  "toLowerCase s = map lower_char s"

subsection \<open>Property access\<close>

text \<open>\<open>v.k\<close> for \<open>k\<close> one of \<open>id\<close>, \<open>text\<close>, \<open>completed\<close> on a value other than \<open>null\<close>:
  only an object can hold such a property.\<close>

fun property :: "jsval \<Rightarrow> string \<Rightarrow> jsval option" where
  "property (JObj kvs) k = map_of kvs k"
| "property _ k = None"

text \<open>\<open>o.k = v\<close>: an existing property keeps its place, a new one goes last.\<close>

fun assign :: "string \<Rightarrow> jsval \<Rightarrow> (string \<times> jsval) list \<Rightarrow> (string \<times> jsval) list" where
  "assign k v [] = [(k, v)]"
| "assign k v ((k', v') # kvs) =
     (if k' = k then (k, v) # kvs else (k', v') # assign k v kvs)"

text \<open>The truth value JavaScript gives a value in a condition or under \<open>!\<close>.\<close>

fun truthy :: "jsval option \<Rightarrow> bool" where
  "truthy None = False"
| "truthy (Some JNull) = False"
| "truthy (Some (JBool b)) = b"
| "truthy (Some (JNum n)) = (n \<noteq> 0)"
| "truthy (Some (JStr s)) = (s \<noteq> '''')"
| "truthy (Some (JArr xs)) = True"
| "truthy (Some (JObj kvs)) = True"

definition is_completed :: "jsval \<Rightarrow> bool" where
  "is_completed task = truthy (property task ''completed'')"

subsection \<open>Persistence\<close>

definition saveTasksToStorage :: "platform \<Rightarrow> app \<Rightarrow> app" where
  "saveTasksToStorage P st =
     (case JSON_stringify P (tasks st) of
        None \<Rightarrow> st\<lparr>console := console st @ [''Error saving tasks to storage:'']\<rparr>
      | Some tasksJson \<Rightarrow>
          if setItem_throws P (localStorage st) STORAGE_KEY tasksJson
          then st\<lparr>console := console st @ [''Error saving tasks to storage:'']\<rparr>
          else st\<lparr>localStorage := (localStorage st)(STORAGE_KEY \<mapsto> tasksJson)\<rparr>)"

text \<open>
  Converting a value to a string, as a template literal does, raises a TypeError for an
  object that has a property \<open>toString\<close> of its own (no value made from JSON data can be
  called), and for an array when joining it converts such an element; elements that are
  \<open>null\<close> are skipped by the join.
\<close>

fun toString_raises :: "jsval \<Rightarrow> bool" where
  "toString_raises (JObj kvs) = (map_of kvs ''toString'' \<noteq> None)"
| "toString_raises (JArr xs) = (\<exists>x\<in>set xs. toString_raises x)"
| "toString_raises v = False"

text \<open>
  After \<open>tasks = JSON.parse(tasksJson)\<close> the function builds its log line from
  \<open>tasks.length\<close>. Reading the property raises on \<open>null\<close>; its value is a number for an
  array or a string, the property of that name for an object, and \<open>undefined\<close> otherwise,
  and converting it to a string can raise.
\<close>

definition length_text_raises :: "jsval \<Rightarrow> bool" where
  "length_text_raises v =
     (case v of
        JNull \<Rightarrow> True
      | JObj kvs \<Rightarrow> (case map_of kvs ''length'' of None \<Rightarrow> False | Some l \<Rightarrow> toString_raises l)
      | _ \<Rightarrow> False)"

text \<open>When the log line raises, the \<open>catch\<close> block resets \<open>tasks\<close>, as it does when
  \<open>JSON.parse\<close> raises. An empty string is falsy, like an absent entry.\<close>

definition loadTasksFromStorage :: "platform \<Rightarrow> app \<Rightarrow> app" where
  "loadTasksFromStorage P st =
     (case localStorage st STORAGE_KEY of
        None \<Rightarrow> st
      | Some tasksJson \<Rightarrow>
          if tasksJson = '''' then st
          else (case JSON_parse P tasksJson of
                  None \<Rightarrow>
                    st\<lparr>tasks := JArr [],
                       console := console st @ [''Error loading tasks from storage:'']\<rparr>
                | Some v \<Rightarrow>
                    if length_text_raises v
                    then st\<lparr>tasks := JArr [],
                            console := console st @ [''Error loading tasks from storage:'']\<rparr>
                    else st\<lparr>tasks := v\<rparr>))"

subsection \<open>Adding a task\<close>

text \<open>\<open>tasks.some((task) => task.text.toLowerCase() === taskText.toLowerCase())\<close>:
  the scan stops at the first match, and raises at an element whose \<open>text\<close> is not a
  string.\<close>

fun some_same_text :: "string \<Rightarrow> jsval list \<Rightarrow> error + bool" where
  "some_same_text taskText [] = Inr False"
| "some_same_text taskText (task # rest) =
     (case task of
        JNull \<Rightarrow> Inl TypeError
      | _ \<Rightarrow>
        (case property task ''text'' of
           Some (JStr s) \<Rightarrow>
             if toLowerCase s = toLowerCase taskText then Inr True
             else some_same_text taskText rest
         | _ \<Rightarrow> Inl TypeError))"

definition newTask :: "int \<Rightarrow> string \<Rightarrow> string \<Rightarrow> jsval" where
  "newTask now taskText stamp =
     JObj [(''id'', JNum now), (''text'', JStr taskText),
           (''completed'', JBool False), (''createdAt'', JStr stamp)]"

text \<open>\<open>now\<close> is the value of \<open>Date.now()\<close>, \<open>stamp\<close> that of \<open>new Date().toISOString()\<close>.
  The result is the state the handler leaves and the exception it ends with, if any.\<close>

definition handleAddTask :: "platform \<Rightarrow> int \<Rightarrow> string \<Rightarrow> app \<Rightarrow> app \<times> error option" where
  "handleAddTask P now stamp st =
     (let taskText = trim (inputValue st) in
      if taskText = ''''
      then (st\<lparr>inputBorderColor := ''#ff6b6b'',
               timers := timers st @ [(2000, ResetBorder)]\<rparr>, None)
      else
        (case tasks st of
           JArr xs \<Rightarrow>
             (case some_same_text taskText xs of
                Inl e \<Rightarrow> (st, Some e)
              | Inr isDuplicate \<Rightarrow>
                  if isDuplicate
                  then (st\<lparr>dialogs := dialogs st @ [Alert ''This task already exists!'']\<rparr>,
                        None)
                  else
                    (let st1 = saveTasksToStorage P
                                 (st\<lparr>tasks := JArr (xs @ [newTask now taskText stamp]),
                                     inputValue := '''', inputBorderColor := ''''\<rparr>)
                     in (st1, view_raises P (tasks st1))))
         | _ \<Rightarrow> (st, Some TypeError)))"

subsection \<open>Toggling and deleting\<close>

text \<open>\<open>tasks.find((task) => task.id === taskId)\<close>, as the index of the element found.\<close>

fun find_task :: "int \<Rightarrow> jsval list \<Rightarrow> error + nat option" where
  "find_task taskId [] = Inr None"
| "find_task taskId (task # rest) =
     (case task of
        JNull \<Rightarrow> Inl TypeError
      | _ \<Rightarrow>
        if property task ''id'' = Some (JNum taskId) then Inr (Some 0)
        else (case find_task taskId rest of
                Inl e \<Rightarrow> Inl e
              | Inr None \<Rightarrow> Inr None
              | Inr (Some i) \<Rightarrow> Inr (Some (Suc i))))"

text \<open>\<open>task.completed = !task.completed\<close>\<close>

fun flip_completed :: "jsval \<Rightarrow> jsval" where
  "flip_completed (JObj kvs) =
     JObj (assign ''completed'' (JBool (\<not> truthy (map_of kvs ''completed''))) kvs)"
| "flip_completed v = v"

definition toggleTaskCompletion :: "platform \<Rightarrow> int \<Rightarrow> app \<Rightarrow> app \<times> error option" where
  "toggleTaskCompletion P taskId st =
     (case tasks st of
        JArr xs \<Rightarrow>
          (case find_task taskId xs of
             Inl e \<Rightarrow> (st, Some e)
           | Inr None \<Rightarrow> (st, None)
           | Inr (Some i) \<Rightarrow>
               (let st1 = saveTasksToStorage P
                            (st\<lparr>tasks := JArr (xs[i := flip_completed (xs ! i)])\<rparr>)
                in (st1, view_raises P (tasks st1))))
      | _ \<Rightarrow> (st, Some TypeError))"

text \<open>\<open>deleteTask\<close> itself only looks the task's element up in the page and, when there is
  one, schedules the removal 300 ms later; \<open>elementFound\<close> is the outcome of
  \<open>document.querySelector\<close>.\<close>

definition deleteTask :: "bool \<Rightarrow> int \<Rightarrow> app \<Rightarrow> app" where
  "deleteTask elementFound taskId st =
     (if elementFound then st\<lparr>timers := timers st @ [(300, RemoveTask taskId)]\<rparr> else st)"

text \<open>The bodies of the two timer callbacks. \<open>tasks.filter((task) => task.id !== taskId)\<close>
  raises at a \<open>null\<close> element, before \<open>tasks\<close> is assigned.\<close>

definition run_callback :: "platform \<Rightarrow> callback \<Rightarrow> app \<Rightarrow> app \<times> error option" where
  "run_callback P cb st =
     (case cb of
        ResetBorder \<Rightarrow> (st\<lparr>inputBorderColor := ''''\<rparr>, None)
      | RemoveTask taskId \<Rightarrow>
          (case tasks st of
             JArr xs \<Rightarrow>
               if JNull \<in> set xs then (st, Some TypeError)
               else
                 (let st1 = saveTasksToStorage P
                              (st\<lparr>tasks :=
                                   JArr (filter (\<lambda>task. property task ''id'' \<noteq> Some (JNum taskId)) xs)\<rparr>)
                  in (st1, view_raises P (tasks st1)))
           | _ \<Rightarrow> (st, Some TypeError)))"

text \<open>The \<open>i\<close>-th pending timer fires.\<close>

definition fire_timer :: "platform \<Rightarrow> nat \<Rightarrow> app \<Rightarrow> app \<times> error option" where
  "fire_timer P i st =
     (if i < length (timers st)
      then run_callback P (snd (timers st ! i))
             (st\<lparr>timers := take i (timers st) @ drop (Suc i) (timers st)\<rparr>)
      else (st, None))"

subsection \<open>Clearing the completed tasks\<close>

text \<open>\<open>confirmed\<close> is the user's answer to the \<open>confirm\<close> dialog.\<close>

definition handleClearCompleted :: "platform \<Rightarrow> bool \<Rightarrow> app \<Rightarrow> app \<times> error option" where
  "handleClearCompleted P confirmed st =
     (case tasks st of
        JArr xs \<Rightarrow>
          if JNull \<in> set xs then (st, Some TypeError)
          else
            (let completedCount = length (filter is_completed xs) in
             if completedCount = 0
             then (st\<lparr>dialogs := dialogs st @ [Alert ''No completed tasks to clear!'']\<rparr>, None)
             else
               (let st0 = st\<lparr>dialogs := dialogs st @
                              [Confirm ''Are you sure you want to delete '' completedCount
                                 '' completed task(s)?'']\<rparr>
                in if confirmed
                   then (let st1 = saveTasksToStorage P
                                     (st0\<lparr>tasks := JArr (filter (\<lambda>task. \<not> is_completed task) xs)\<rparr>)
                         in (st1, view_raises P (tasks st1)))
                   else (st0, None)))
      | _ \<Rightarrow> (st, Some TypeError))"

subsection \<open>Import\<close>

text \<open>The \<open>catch\<close> block of \<open>reader.onload\<close>.\<close>

definition import_error :: "app \<Rightarrow> app" where
  "import_error st =
     st\<lparr>dialogs := dialogs st @ [Alert ''Error importing tasks. Please check the file format.''],
        console := console st @ [''Import error:'']\<rparr>"

text \<open>\<open>reader.onload\<close> of \<open>importTasks\<close>: \<open>result\<close> is the text of the file,
  \<open>confirmed\<close> the user's answer. Everything runs inside \<open>try\<close>, so an exception of the
  view code after the assignment ends in the \<open>catch\<close> block as well.\<close>

definition importTasks :: "platform \<Rightarrow> string \<Rightarrow> bool \<Rightarrow> app \<Rightarrow> app" where
  "importTasks P result confirmed st =
     (case JSON_parse P result of
        None \<Rightarrow> import_error st
      | Some importedTasks \<Rightarrow>
          (case importedTasks of
             JArr ys \<Rightarrow>
               (let st0 = st\<lparr>dialogs := dialogs st @
                              [Confirm ''Import '' (length ys)
                                 '' tasks? This will replace your current tasks.'']\<rparr>
                in if confirmed
                   then (let st1 = saveTasksToStorage P (st0\<lparr>tasks := importedTasks\<rparr>)
                         in (case view_raises P (tasks st1) of
                               None \<Rightarrow> st1
                             | Some e \<Rightarrow> import_error st1))
                   else st0)
           | _ \<Rightarrow> import_error st))"


section \<open>A reference platform\<close>

text \<open>
  The properties below hold for every platform. To run the handlers on concrete inputs,
  and to see that what the properties assume of a platform can be had, here is one.
  \<open>stringify\<close> prints a value the way \<open>JSON.stringify\<close> does (no white space, the short
  escapes, a four-digit hexadecimal escape for the other control characters), and \<open>parse\<close>
  reads JSON text as \<open>JSON.parse\<close> does, on the numbers the model has: a number with a
  fraction or an exponent is outside the model and is not read.
\<close>

definition digit_char :: "nat \<Rightarrow> char" where
  "digit_char d = char_of (48 + d)"

fun show_nat :: "nat \<Rightarrow> string" where
  "show_nat n =
     (if n < 10 then [digit_char n] else show_nat (n div 10) @ [digit_char (n mod 10)])"

declare show_nat.simps [simp del]

definition show_int :: "int \<Rightarrow> string" where
  "show_int i = (if i < 0 then CHR ''-'' # show_nat (nat (- i)) else show_nat (nat i))"

definition hex_char :: "nat \<Rightarrow> char" where
  "hex_char d = (if d < 10 then char_of (48 + d) else char_of (87 + d))"

text \<open>A character inside a string literal, and the literal.\<close>

definition escape :: "char \<Rightarrow> string" where
  "escape c =
     (let n = (of_char c :: nat) in
      if c = CHR 0x22 then [CHR 0x5C, CHR 0x22]
      else if c = CHR 0x5C then [CHR 0x5C, CHR 0x5C]
      else if n = 8 then [CHR 0x5C, CHR ''b'']
      else if n = 9 then [CHR 0x5C, CHR ''t'']
      else if n = 10 then [CHR 0x5C, CHR ''n'']
      else if n = 12 then [CHR 0x5C, CHR ''f'']
      else if n = 13 then [CHR 0x5C, CHR ''r'']
      else if n < 32 then [CHR 0x5C, CHR ''u'', CHR ''0'', CHR ''0'', hex_char (n div 16), hex_char (n mod 16)]
      else [c])"

definition quote :: "string \<Rightarrow> string" where
  "quote s = CHR 0x22 # concat (map escape s) @ [CHR 0x22]"

text \<open>The pieces of an array or object, with commas between them.\<close>

fun commas :: "string list \<Rightarrow> string" where
  "commas [] = []"
| "commas [x] = x"
| "commas (x # y # zs) = x @ CHR '','' # commas (y # zs)"

fun stringify :: "jsval \<Rightarrow> string" where
  "stringify JNull = ''null''"
| "stringify (JBool b) = (if b then ''true'' else ''false'')"
| "stringify (JNum i) = show_int i"
| "stringify (JStr s) = quote s"
| "stringify (JArr xs) = CHR ''['' # commas (map stringify xs) @ [CHR '']'']"
| "stringify (JObj kvs) =
     CHR ''{'' # commas (map (\<lambda>(k, v). quote k @ CHR '':'' # stringify v) kvs) @ [CHR ''}'']"

subsection \<open>Reading JSON text\<close>

definition is_ws :: "char \<Rightarrow> bool" where
  "is_ws c = ((of_char c :: nat) \<in> {9, 10, 13, 32})"

definition is_digit :: "char \<Rightarrow> bool" where
  "is_digit c = (48 \<le> (of_char c :: nat) \<and> (of_char c :: nat) \<le> 57)"

definition digit_val :: "char \<Rightarrow> nat" where
  "digit_val c = of_char c - 48"

fun read_digits :: "nat \<Rightarrow> string \<Rightarrow> nat \<times> string" where
  "read_digits acc [] = (acc, [])"
| "read_digits acc (c # cs) =
     (if is_digit c then read_digits (10 * acc + digit_val c) cs else (acc, c # cs))"

text \<open>The integer part of a JSON number: a single 0, or digits that start with 1 to 9.\<close>

definition read_nat :: "string \<Rightarrow> (nat \<times> string) option" where
  "read_nat s =
     (case s of
        [] \<Rightarrow> None
      | c # cs \<Rightarrow>
          if c = CHR ''0'' then Some (0, cs)
          else if is_digit c then Some (read_digits 0 s)
          else None)"

text \<open>An integer, with its sign; a fraction, an exponent or a further digit after it is not read.\<close>

definition read_number :: "string \<Rightarrow> (jsval \<times> string) option" where
  "read_number s =
     (case (case s of
              [] \<Rightarrow> None
            | c # cs \<Rightarrow>
                if c = CHR ''-'' then map_option (\<lambda>(n, r). (- int n, r)) (read_nat cs)
                else map_option (\<lambda>(n, r). (int n, r)) (read_nat s)) of
        None \<Rightarrow> None
      | Some (i, r) \<Rightarrow>
          (case r of
             [] \<Rightarrow> Some (JNum i, r)
           | c # cs \<Rightarrow>
               if c = CHR ''.'' \<or> c = CHR ''e'' \<or> c = CHR ''E'' \<or> is_digit c then None
               else Some (JNum i, r)))"

definition hex_val :: "char \<Rightarrow> nat option" where
  "hex_val c =
     (let n = (of_char c :: nat) in
      if 48 \<le> n \<and> n \<le> 57 then Some (n - 48)
      else if 97 \<le> n \<and> n \<le> 102 then Some (n - 87)
      else if 65 \<le> n \<and> n \<le> 70 then Some (n - 55)
      else None)"

text \<open>The characters of a string literal after its opening quote, up to the closing one.
  A raw control character is refused; an escape for a code above 255 is outside the model.\<close>

fun read_chars :: "string \<Rightarrow> (string \<times> string) option" where
  "read_chars [] = None"
| "read_chars (c # cs) =
     (if c = CHR 0x22 then Some ([], cs)
      else if c = CHR 0x5C then
        (case cs of
           [] \<Rightarrow> None
         | e # r \<Rightarrow>
             if e = CHR ''u'' then
               (case r of
                  a # b # x # y # r' \<Rightarrow>
                    (case (hex_val a, hex_val b, hex_val x, hex_val y) of
                       (Some 0, Some 0, Some h, Some l) \<Rightarrow>
                         map_option (\<lambda>(t, r''). (char_of (16 * h + l) # t, r'')) (read_chars r')
                     | _ \<Rightarrow> None)
                | _ \<Rightarrow> None)
             else
               (case map_of [(CHR 0x22, CHR 0x22), (CHR 0x5C, CHR 0x5C), (CHR ''/'', CHR ''/''),
                             (CHR ''b'', CHR 0x08), (CHR ''f'', CHR 0x0C), (CHR ''n'', CHR 0x0A),
                             (CHR ''r'', CHR 0x0D), (CHR ''t'', CHR 0x09)] e of
                  None \<Rightarrow> None
                | Some d \<Rightarrow> map_option (\<lambda>(t, r'). (d # t, r')) (read_chars r)))
      else if (of_char c :: nat) < 32 then None
      else map_option (\<lambda>(t, r). (c # t, r)) (read_chars cs))"

definition read_string :: "string \<Rightarrow> (string \<times> string) option" where
  "read_string s = (case s of [] \<Rightarrow> None | c # cs \<Rightarrow> if c = CHR 0x22 then read_chars cs else None)"

definition skip_ws :: "string \<Rightarrow> string" where
  "skip_ws s = dropWhile is_ws s"

definition literal :: "string \<Rightarrow> string \<Rightarrow> string option" where
  "literal w s = (if take (length w) s = w then Some (drop (length w) s) else None)"

text \<open>A value, the elements of an array after its bracket, the members of an object after
  its brace; each returns what it read and the rest of the text. The first argument bounds
  the number of values still to be read, nested or in a row; \<open>parse\<close> starts it above
  the length of the text.\<close>

fun read_value :: "nat \<Rightarrow> string \<Rightarrow> (jsval \<times> string) option"
  and read_elements :: "nat \<Rightarrow> string \<Rightarrow> (jsval list \<times> string) option"
  and read_members :: "nat \<Rightarrow> string \<Rightarrow> ((string \<times> jsval) list \<times> string) option" where
  "read_value 0 s = None"
| "read_value (Suc n) s =
     (case skip_ws s of
        [] \<Rightarrow> None
      | c # cs \<Rightarrow>
          if c = CHR ''['' then
            (case skip_ws cs of
               [] \<Rightarrow> None
             | d # ds \<Rightarrow>
                 if d = CHR '']'' then Some (JArr [], ds)
                 else map_option (\<lambda>(xs, r). (JArr xs, r)) (read_elements n cs))
          else if c = CHR ''{'' then
            (case skip_ws cs of
               [] \<Rightarrow> None
             | d # ds \<Rightarrow>
                 if d = CHR ''}'' then Some (JObj [], ds)
                 else map_option (\<lambda>(kvs, r). (JObj kvs, r)) (read_members n cs))
          else if c = CHR 0x22 then map_option (\<lambda>(t, r). (JStr t, r)) (read_chars cs)
          else if c = CHR ''t'' then map_option (Pair (JBool True)) (literal ''true'' (c # cs))
          else if c = CHR ''f'' then map_option (Pair (JBool False)) (literal ''false'' (c # cs))
          else if c = CHR ''n'' then map_option (Pair JNull) (literal ''null'' (c # cs))
          else read_number (c # cs))"
| "read_elements 0 s = None"
| "read_elements (Suc n) s =
     (case read_value n s of
        None \<Rightarrow> None
      | Some (x, r) \<Rightarrow>
          (case skip_ws r of
             [] \<Rightarrow> None
           | c # cs \<Rightarrow>
               if c = CHR '']'' then Some ([x], cs)
               else if c = CHR '','' then
                 map_option (\<lambda>(xs, r'). (x # xs, r')) (read_elements n cs)
               else None))"
| "read_members 0 s = None"
| "read_members (Suc n) s =
     (case read_string (skip_ws s) of
        None \<Rightarrow> None
      | Some (k, r) \<Rightarrow>
          (case skip_ws r of
             [] \<Rightarrow> None
           | c # cs \<Rightarrow>
               if c = CHR '':'' then
                 (case read_value n cs of
                    None \<Rightarrow> None
                  | Some (v, r') \<Rightarrow>
                      (case skip_ws r' of
                         [] \<Rightarrow> None
                       | d # ds \<Rightarrow>
                           if d = CHR ''}'' then Some ([(k, v)], ds)
                           else if d = CHR '','' then
                             map_option (\<lambda>(kvs, r''). ((k, v) # kvs, r'')) (read_members n ds)
                           else None))
               else None))"

definition parse :: "string \<Rightarrow> jsval option" where
  "parse s =
     (case read_value (Suc (length s)) s of
        None \<Rightarrow> None
      | Some (v, r) \<Rightarrow> if skip_ws r = [] then Some v else None)"


text \<open>A browser whose storage takes every write and whose page has no element named
  \<open>completedTask\<close>, and the same browser with its storage full.\<close>

definition browser :: platform where
  "browser =
     \<lparr>JSON_stringify = (\<lambda>v. Some (stringify v)), JSON_parse = parse,
      setItem_throws = (\<lambda>sto k v. False), view_raises = (\<lambda>v. Some ReferenceError)\<rparr>"

definition full_browser :: platform where
  "full_browser = browser\<lparr>setItem_throws := (\<lambda>sto k v. True)\<rparr>"

section \<open>Vocabulary of the properties\<close>

text \<open>For the proofs about the reference platform: the texts that may follow a value
  inside JSON text, and the characters that may start one.\<close>

definition closes :: "string \<Rightarrow> bool" where
  "closes rest = (case rest of [] \<Rightarrow> True | c # cs \<Rightarrow> c = CHR '','' \<or> c = CHR '']'' \<or> c = CHR ''}'')"

definition opens :: "char \<Rightarrow> bool" where
  "opens c = (\<not> is_ws c \<and> c \<noteq> CHR '']'' \<and> c \<noteq> CHR ''}'')"

text \<open>
  A handler that started in \<open>st\<close> and left \<open>st'\<close> has written the collection of \<open>st'\<close>:
  the storage entry holds its serialisation, or, where \<open>JSON.stringify\<close> or
  \<open>localStorage.setItem\<close> raised, \<open>saveTasksToStorage\<close> reported that on the console.
\<close>

definition persisted :: "platform \<Rightarrow> app \<Rightarrow> app \<Rightarrow> bool" where
  "persisted P st st' =
     (case JSON_stringify P (tasks st') of
        None \<Rightarrow> ''Error saving tasks to storage:'' \<in> set (drop (length (console st)) (console st'))
      | Some tasksJson \<Rightarrow>
          if setItem_throws P (localStorage st) STORAGE_KEY tasksJson
          then ''Error saving tasks to storage:'' \<in> set (drop (length (console st)) (console st'))
          else localStorage st' STORAGE_KEY = Some tasksJson)"

text \<open>
  What can happen to the store in a session: the user types a text and adds it (with the
  clock's values at that moment), toggles a task, clicks a delete button (\<open>deleteTask\<close>,
  which only schedules the removal), and a pending timer fires.
\<close>

datatype event =
    Add string int string
  | Toggle int
  | Delete bool int
  | Fire nat

fun step :: "platform \<Rightarrow> app \<Rightarrow> event \<Rightarrow> app" where
  "step P st (Add text now stamp) = fst (handleAddTask P now stamp (st\<lparr>inputValue := text\<rparr>))"
| "step P st (Toggle taskId) = fst (toggleTaskCompletion P taskId st)"
| "step P st (Delete elementFound taskId) = deleteTask elementFound taskId st"
| "step P st (Fire i) = fst (fire_timer P i st)"

definition run :: "platform \<Rightarrow> event list \<Rightarrow> app \<Rightarrow> app" where
  "run P evs st = foldl (step P) st evs"

text \<open>The text of a task as the duplicate check compares it, and the number that is
  its id; \<open>None\<close> where the task has no such property.\<close>

definition text_key :: "jsval \<Rightarrow> string option" where
  "text_key task = (case property task ''text'' of Some (JStr s) \<Rightarrow> Some (toLowerCase s) | _ \<Rightarrow> None)"

text \<open>The collection is an array of tasks that all have a text, no two of them
  case-insensitively equal.\<close>

definition texts_unique :: "app \<Rightarrow> bool" where
  "texts_unique st =
     (case tasks st of
        JArr xs \<Rightarrow> None \<notin> set (map text_key xs) \<and> distinct (map text_key xs)
      | _ \<Rightarrow> False)"

definition id_key :: "jsval \<Rightarrow> int option" where
  "id_key task = (case property task ''id'' of Some (JNum n) \<Rightarrow> Some n | _ \<Rightarrow> None)"

text \<open>The values \<open>Date.now()\<close> returned during a run, and the collections whose ids are
  distinct and among given clock values.\<close>

fun clock_of :: "event \<Rightarrow> int list" where
  "clock_of (Add t now stamp) = [now]"
| "clock_of _ = []"

definition ids_from :: "int set \<Rightarrow> app \<Rightarrow> bool" where
  "ids_from N st =
     (case tasks st of
        JArr xs \<Rightarrow> distinct (map id_key xs) \<and> set (map id_key xs) \<subseteq> Some ` N
      | _ \<Rightarrow> False)"

text \<open>Two tasks as \<open>handleAddTask\<close> builds them, two objects whose \<open>length\<close> cannot
  be made a string, and two states to run the handlers on.\<close>

definition report :: jsval where
  "report = newTask 1000 ''Write report'' ''2024-01-01T09:00:00.000Z''"

definition dentist :: jsval where
  "dentist = newTask 2000 ''Call dentist'' ''2024-01-01T09:00:05.000Z''"

definition odd_length :: jsval where
  "odd_length = JObj [(''length'', JObj [(''toString'', JNum 0)])]"

definition odd_elements :: jsval where
  "odd_elements = JObj [(''length'', JArr [JNull, JObj [(''toString'', JNum 0)]])]"

definition two_tasks :: app where
  "two_tasks = (initial Map.empty)\<lparr>tasks := JArr [report, dentist]\<rparr>"

definition one_done :: app where
  "one_done = (initial Map.empty)\<lparr>tasks := JArr [flip_completed report, dentist]\<rparr>"

section \<open>Properties\<close>

subsection \<open>The reference platform reads back what it writes\<close>

lemma digit_char_props:
  "d < 10 \<Longrightarrow> is_digit (digit_char d)"
  "d < 10 \<Longrightarrow> digit_val (digit_char d) = d"
  "d < 10 \<Longrightarrow> (digit_char d = CHR ''0'') = (d = 0)"
  "d < 10 \<Longrightarrow> of_char (digit_char d) = 48 + d"
proof -
  assume d: "d < 10"
  then have o: "(of_char (digit_char d) :: nat) = 48 + d"
    by (simp add: digit_char_def)
  show "(of_char (digit_char d) :: nat) = 48 + d" by (rule o)
  show "is_digit (digit_char d)" using d by (simp add: is_digit_def o)
  show "digit_val (digit_char d) = d" by (simp add: digit_val_def o)
  have "(digit_char d = CHR ''0'') = ((of_char (digit_char d) :: nat) = of_char CHR ''0'')"
    by (simp only: of_char_eq_iff)
  then show "(digit_char d = CHR ''0'') = (d = 0)" by (simp add: o)
qed

lemma show_nat_digits: "\<forall>c\<in>set (show_nat n). is_digit c"
proof (induction n rule: show_nat.induct)
  case (1 n)
  show ?case
  proof (cases "n < 10")
    case True
    then show ?thesis by (subst show_nat.simps) (simp add: digit_char_props)
  next
    case False
    then have "n mod 10 < 10" by simp
    with False 1 show ?thesis by (subst show_nat.simps) (simp add: digit_char_props)
  qed
qed

lemma show_nat_hd:
  "\<exists>c cs. show_nat n = c # cs \<and> is_digit c \<and> ((c = CHR ''0'') = (n = 0)) \<and> (n = 0 \<longrightarrow> cs = [])"
proof (induction n rule: show_nat.induct)
  case (1 n)
  show ?case
  proof (cases "n < 10")
    case True
    then show ?thesis by (subst show_nat.simps) (simp add: digit_char_props)
  next
    case False
    from 1 [OF False] obtain c cs where c: "show_nat (n div 10) = c # cs" "is_digit c"
      "(c = CHR ''0'') = (n div 10 = 0)" by auto
    from False have "n div 10 \<noteq> 0" by simp
    with c False show ?thesis by (subst show_nat.simps) simp
  qed
qed

lemma read_digits_append:
  "\<forall>c\<in>set ds. is_digit c \<Longrightarrow>
     read_digits acc (ds @ rest) = read_digits (foldl (\<lambda>a c. 10 * a + digit_val c) acc ds) rest"
  by (induction ds arbitrary: acc) simp_all

lemma foldl_show_nat:
  "foldl (\<lambda>a c. 10 * a + digit_val c) acc (show_nat n) = acc * 10 ^ length (show_nat n) + n"
proof (induction n arbitrary: acc rule: show_nat.induct)
  case (1 n)
  show ?case
  proof (cases "n < 10")
    case True
    then show ?thesis by (subst (1 2) show_nat.simps) (simp add: digit_char_props)
  next
    case False
    then have m: "n mod 10 < 10" by simp
    have s: "show_nat n = show_nat (n div 10) @ [digit_char (n mod 10)]"
      using False by (subst show_nat.simps) simp
    show ?thesis
      unfolding s using 1 [OF False] m by (simp add: digit_char_props algebra_simps)
  qed
qed

lemma read_digits_stop: "closes rest \<Longrightarrow> read_digits acc rest = (acc, rest)"
  by (cases rest) (auto simp: closes_def is_digit_def)

lemma read_digits_show_nat: "closes rest \<Longrightarrow> read_digits 0 (show_nat n @ rest) = (n, rest)"
  by (simp add: read_digits_append show_nat_digits foldl_show_nat read_digits_stop)

lemma read_nat_show_nat: "closes rest \<Longrightarrow> read_nat (show_nat n @ rest) = Some (n, rest)"
proof -
  assume r: "closes rest"
  from show_nat_hd [of n] obtain c cs where c: "show_nat n = c # cs" "is_digit c"
    "(c = CHR ''0'') = (n = 0)" "n = 0 \<longrightarrow> cs = []" by auto
  show ?thesis
  proof (cases "n = 0")
    case True
    with c show ?thesis by (simp add: read_nat_def)
  next
    case False
    from read_digits_show_nat [OF r, of n] c False show ?thesis
      by (simp add: read_nat_def)
  qed
qed

lemma closes_number: "closes rest \<Longrightarrow>
  (case rest of [] \<Rightarrow> Some (JNum i, rest)
   | c # cs \<Rightarrow> if c = CHR ''.'' \<or> c = CHR ''e'' \<or> c = CHR ''E'' \<or> is_digit c then None
              else Some (JNum i, rest)) = Some (JNum i, rest)"
  by (cases rest) (auto simp: closes_def is_digit_def)

lemma read_number_show_int:
  assumes "closes rest"
  shows "read_number (show_int i @ rest) = Some (JNum i, rest)"
proof (cases "i < 0")
  case True
  then have "show_int i @ rest = CHR ''-'' # show_nat (nat (- i)) @ rest"
    by (simp add: show_int_def)
  moreover from True have "- int (nat (- i)) = i" by simp
  ultimately show ?thesis
    using read_nat_show_nat [OF assms, of "nat (- i)"] closes_number [OF assms, of i]
    by (simp add: read_number_def)
next
  case False
  from show_nat_hd [of "nat i"] obtain c cs where c: "show_nat (nat i) = c # cs" "is_digit c"
    by auto
  from c(2) have "c \<noteq> CHR ''-''" by (auto simp: is_digit_def)
  moreover from False have "int (nat i) = i" by simp
  moreover from False have "show_int i = show_nat (nat i)" by (simp add: show_int_def)
  ultimately show ?thesis
    using read_nat_show_nat [OF assms, of "nat i"] closes_number [OF assms, of i] c(1)
    by (simp add: read_number_def)
qed

lemma char_is: "(c = d) = ((of_char c :: nat) = of_char d)"
  by (simp only: of_char_eq_iff)

lemma hex_val_hex_char: "d < 16 \<Longrightarrow> hex_val (hex_char d) = Some d"
  by (simp add: hex_val_def hex_char_def Let_def)

lemma read_chars_plain:
  "c \<noteq> CHR 0x22 \<Longrightarrow> c \<noteq> CHR 0x5C \<Longrightarrow> 32 \<le> (of_char c :: nat) \<Longrightarrow>
     read_chars (c # r) = map_option (\<lambda>(t, r'). (c # t, r')) (read_chars r)"
  by simp

lemma hex_val_zero: "hex_val CHR ''0'' = Some 0"
  by (simp add: hex_val_def)

lemma read_chars_hex:
  assumes "h < 16" and "l < 16"
  shows "read_chars (CHR 0x5C # CHR ''u'' # CHR ''0'' # CHR ''0'' # hex_char h # hex_char l # r) =
           map_option (\<lambda>(t, r'). (char_of (16 * h + l) # t, r')) (read_chars r)"
  using assms by (simp add: hex_val_hex_char hex_val_zero)

lemma read_chars_escape:
  "read_chars (escape c @ r) = map_option (\<lambda>(t, r'). (c # t, r')) (read_chars r)"
proof -
  let ?n = "of_char c :: nat"
  consider (quote) "c = CHR 0x22" | (backslash) "c = CHR 0x5C"
    | (b) "?n = 8" | (t) "?n = 9" | (n) "?n = 10" | (f) "?n = 12" | (r) "?n = 13"
    | (ctl) "?n < 32" "?n \<noteq> 8" "?n \<noteq> 9" "?n \<noteq> 10" "?n \<noteq> 12" "?n \<noteq> 13"
    | (plain) "32 \<le> ?n" "c \<noteq> CHR 0x22" "c \<noteq> CHR 0x5C"
    by linarith
  then show ?thesis
  proof cases
    case quote
    then show ?thesis by (simp add: escape_def)
  next
    case backslash
    then show ?thesis by (simp add: escape_def)
  next
    case b
    then have c: "c = CHR 0x08" by (simp add: char_is)
    show ?thesis unfolding c by (simp add: escape_def)
  next
    case t
    then have c: "c = CHR 0x09" by (simp add: char_is)
    show ?thesis unfolding c by (simp add: escape_def)
  next
    case n
    then have c: "c = CHR 0x0A" by (simp add: char_is)
    show ?thesis unfolding c by (simp add: escape_def)
  next
    case f
    then have c: "c = CHR 0x0C" by (simp add: char_is)
    show ?thesis unfolding c by (simp add: escape_def)
  next
    case r
    then have c: "c = CHR 0x0D" by (simp add: char_is)
    show ?thesis unfolding c by (simp add: escape_def)
  next
    case ctl
    then have q: "c \<noteq> CHR 0x22" "c \<noteq> CHR 0x5C" by (auto simp: char_is)
    have hl: "?n div 16 < 16" "?n mod 16 < 16" using ctl(1) by simp_all
    have "char_of (16 * (?n div 16) + ?n mod 16) = c" by simp
    with read_chars_hex [OF hl, of r] q ctl show ?thesis
      by (simp add: escape_def Let_def)
  next
    case plain
    then have "escape c = [c]" by (auto simp: escape_def Let_def)
    with plain read_chars_plain [of c r] show ?thesis by simp
  qed
qed

lemma read_chars_quote:
  "read_chars (concat (map escape s) @ CHR 0x22 # rest) = Some (s, rest)"
  by (induction s) (simp_all add: read_chars_escape del: read_chars.simps, simp)

lemma read_string_quote: "read_string (quote s @ rest) = Some (s, rest)"
  using read_chars_quote [of s rest] by (simp add: read_string_def quote_def)

lemma skip_ws_keep: "\<not> is_ws c \<Longrightarrow> skip_ws (c # cs) = c # cs"
  by (simp add: skip_ws_def)

lemma closes_simps [simp]:
  "closes []" "closes (CHR '','' # r)" "closes (CHR '']'' # r)" "closes (CHR ''}'' # r)"
  by (simp_all add: closes_def)

lemma digit_opens: "is_digit c \<Longrightarrow> opens c"
  by (auto simp: opens_def is_digit_def is_ws_def)

lemma stringify_start: "\<exists>c cs. stringify v = c # cs \<and> opens c"
proof (cases v)
  case (JNum i)
  show ?thesis
  proof (cases "i < 0")
    case True
    with JNum show ?thesis by (simp add: show_int_def opens_def is_ws_def)
  next
    case False
    from show_nat_hd [of "nat i"] obtain c cs where "show_nat (nat i) = c # cs" "is_digit c"
      by auto
    with False JNum show ?thesis by (simp add: show_int_def digit_opens)
  qed
qed (simp_all add: opens_def is_ws_def quote_def)

lemma read_value_null:
  "read_value (Suc n) (''null'' @ rest) = Some (JNull, rest)"
  by (simp add: skip_ws_def is_ws_def literal_def)

lemma read_value_true:
  "read_value (Suc n) (''true'' @ rest) = Some (JBool True, rest)"
  by (simp add: skip_ws_def is_ws_def literal_def)

lemma read_value_false:
  "read_value (Suc n) (''false'' @ rest) = Some (JBool False, rest)"
  by (simp add: skip_ws_def is_ws_def literal_def)

lemma read_value_string:
  "read_value (Suc n) (quote s @ rest) = Some (JStr s, rest)"
  using read_chars_quote [of s rest]
  by (simp add: skip_ws_def is_ws_def quote_def del: read_chars.simps)

lemma read_value_number:
  assumes "closes rest"
  shows "read_value (Suc n) (show_int i @ rest) = Some (JNum i, rest)"
proof -
  obtain c cs where c: "show_int i = c # cs" "c = CHR ''-'' \<or> is_digit c"
  proof (cases "i < 0")
    case True
    with that show ?thesis by (simp add: show_int_def)
  next
    case False
    from show_nat_hd [of "nat i"] obtain c cs where "show_nat (nat i) = c # cs" "is_digit c"
      by auto
    with False that show ?thesis by (simp add: show_int_def)
  qed
  from c(2) have n: "\<not> is_ws c" "c \<noteq> CHR ''[''" "c \<noteq> CHR ''{''" "c \<noteq> CHR 0x22"
    "c \<noteq> CHR ''t''" "c \<noteq> CHR ''f''" "c \<noteq> CHR ''n''"
    by (auto simp: is_digit_def is_ws_def)
  have "read_value (Suc n) (c # cs @ rest) = read_number (c # cs @ rest)"
    using n by (simp add: skip_ws_keep)
  with read_number_show_int [OF assms, of i] c(1) show ?thesis by simp
qed

lemma read_value_array_empty:
  "read_value (Suc n) (CHR ''['' # CHR '']'' # rest) = Some (JArr [], rest)"
  by (simp add: skip_ws_def is_ws_def)

lemma read_value_array:
  "opens d \<Longrightarrow> read_value (Suc n) (CHR ''['' # d # ds) =
     map_option (\<lambda>(xs, r). (JArr xs, r)) (read_elements n (d # ds))"
  by (simp add: skip_ws_def is_ws_def opens_def)

lemma read_value_object_empty:
  "read_value (Suc n) (CHR ''{'' # CHR ''}'' # rest) = Some (JObj [], rest)"
  by (simp add: skip_ws_def is_ws_def)

lemma read_value_object:
  "opens d \<Longrightarrow> read_value (Suc n) (CHR ''{'' # d # ds) =
     map_option (\<lambda>(kvs, r). (JObj kvs, r)) (read_members n (d # ds))"
  by (simp add: skip_ws_def is_ws_def opens_def)

lemma read_elements_step:
  "read_value n s = Some (x, CHR '','' # r) \<Longrightarrow>
     read_elements (Suc n) s = map_option (\<lambda>(xs, r'). (x # xs, r')) (read_elements n r)"
  "read_value n s = Some (x, CHR '']'' # r) \<Longrightarrow> read_elements (Suc n) s = Some ([x], r)"
  by (simp_all add: skip_ws_def is_ws_def)

lemma read_members_step:
  "read_value n s = Some (v, CHR '','' # r) \<Longrightarrow>
     read_members (Suc n) (quote k @ CHR '':'' # s) =
       map_option (\<lambda>(kvs, r'). ((k, v) # kvs, r')) (read_members n r)"
  "read_value n s = Some (v, CHR ''}'' # r) \<Longrightarrow>
     read_members (Suc n) (quote k @ CHR '':'' # s) = Some ([(k, v)], r)"
proof -
  have q: "skip_ws (quote k @ CHR '':'' # s) = quote k @ CHR '':'' # s"
    by (simp add: quote_def skip_ws_def is_ws_def)
  have c: "skip_ws (CHR '':'' # s) = CHR '':'' # s"
    by (simp add: skip_ws_def is_ws_def)
  {
    assume "read_value n s = Some (v, CHR '','' # r)"
    then show "read_members (Suc n) (quote k @ CHR '':'' # s) =
       map_option (\<lambda>(kvs, r'). ((k, v) # kvs, r')) (read_members n r)"
      using read_string_quote [of k "CHR '':'' # s"]
      by (simp add: q c) (simp add: skip_ws_def is_ws_def)
  }
  {
    assume "read_value n s = Some (v, CHR ''}'' # r)"
    then show "read_members (Suc n) (quote k @ CHR '':'' # s) = Some ([(k, v)], r)"
      using read_string_quote [of k "CHR '':'' # s"]
      by (simp add: q c) (simp add: skip_ws_def is_ws_def)
  }
qed

lemma stringify_length: "0 < length (stringify v)"
  using stringify_start [of v] by auto

lemma read_elements_commas:
  assumes "\<And>x rest n. x \<in> set xs \<Longrightarrow> closes rest \<Longrightarrow> length (stringify x) \<le> n
             \<Longrightarrow> read_value n (stringify x @ rest) = Some (x, rest)"
    and "xs \<noteq> []" and "length (commas (map stringify xs)) < m"
  shows "read_elements m (commas (map stringify xs) @ CHR '']'' # rest) = Some (xs, rest)"
  using assms
proof (induction xs arbitrary: m)
  case Nil
  then show ?case by simp
next
  case (Cons x xs)
  from Cons.prems(3) obtain n where m: "m = Suc n" by (cases m) auto
  show ?case
  proof (cases xs)
    case Nil
    with Cons.prems(3) m have "length (stringify x) \<le> n" by simp
    then have "read_value n (stringify x @ CHR '']'' # rest) = Some (x, CHR '']'' # rest)"
      by (intro Cons.prems(1)) simp_all
    from read_elements_step(2) [OF this] Nil m show ?thesis by simp
  next
    case (Cons y ys)
    let ?tail = "commas (map stringify xs) @ CHR '']'' # rest"
    from Cons Cons.prems(3) m have l: "length (stringify x) \<le> n"
      "length (commas (map stringify xs)) < n"
      by simp_all
    from l(1) have "read_value n (stringify x @ CHR '','' # ?tail) = Some (x, CHR '','' # ?tail)"
      by (intro Cons.prems(1)) simp_all
    from read_elements_step(1) [OF this]
    have "read_elements (Suc n) (stringify x @ CHR '','' # ?tail) =
            map_option (\<lambda>(xs, r'). (x # xs, r')) (read_elements n ?tail)" .
    moreover have "read_elements n ?tail = Some (xs, rest)"
      using Cons.prems(1) Cons l(2) by (intro Cons.IH) simp_all
    ultimately show ?thesis using Cons m by simp
  qed
qed

lemma read_members_commas:
  assumes "\<And>k v rest n. (k, v) \<in> set kvs \<Longrightarrow> closes rest \<Longrightarrow> length (stringify v) \<le> n
             \<Longrightarrow> read_value n (stringify v @ rest) = Some (v, rest)"
    and "kvs \<noteq> []"
    and "length (commas (map (\<lambda>(k, v). quote k @ CHR '':'' # stringify v) kvs)) < m"
  shows "read_members m (commas (map (\<lambda>(k, v). quote k @ CHR '':'' # stringify v) kvs) @ CHR ''}'' # rest)
           = Some (kvs, rest)"
  using assms
proof (induction kvs arbitrary: m)
  case Nil
  then show ?case by simp
next
  case (Cons kv kvs)
  obtain k v where kv: "kv = (k, v)" by (cases kv)
  from Cons.prems(3) obtain n where m: "m = Suc n" by (cases m) auto
  show ?case
  proof (cases kvs)
    case Nil
    with Cons.prems(3) m kv have "length (stringify v) \<le> n" by simp
    then have "read_value n (stringify v @ CHR ''}'' # rest) = Some (v, CHR ''}'' # rest)"
      using kv by (intro Cons.prems(1) [of k]) simp_all
    from read_members_step(2) [OF this, of k] Nil m kv show ?thesis by simp
  next
    case (Cons kv' kvs')
    let ?tail = "commas (map (\<lambda>(k, v). quote k @ CHR '':'' # stringify v) kvs) @ CHR ''}'' # rest"
    from Cons Cons.prems(3) m kv have l: "length (stringify v) \<le> n"
      "length (commas (map (\<lambda>(k, v). quote k @ CHR '':'' # stringify v) kvs)) < n"
      by simp_all
    from l(1) have "read_value n (stringify v @ CHR '','' # ?tail) = Some (v, CHR '','' # ?tail)"
      using kv by (intro Cons.prems(1) [of k]) simp_all
    from read_members_step(1) [OF this, of k]
    have "read_members (Suc n) (quote k @ CHR '':'' # stringify v @ CHR '','' # ?tail) =
            map_option (\<lambda>(kvs, r'). ((k, v) # kvs, r')) (read_members n ?tail)" .
    moreover have "read_members n ?tail = Some (kvs, rest)"
    proof (rule Cons.IH)
      show "kvs \<noteq> []" using Cons by simp
      show "length (commas (map (\<lambda>(k, v). quote k @ CHR '':'' # stringify v) kvs)) < n"
        by (rule l(2))
    next
      fix k v rest n
      assume "(k, v) \<in> set kvs" "closes rest" "length (stringify v) \<le> n"
      then show "read_value n (stringify v @ rest) = Some (v, rest)"
        by (intro Cons.prems(1) [of k v]) simp_all
    qed
    ultimately show ?thesis using Cons m kv by simp
  qed
qed

lemma commas_start:
  "xs \<noteq> [] \<Longrightarrow> \<forall>x\<in>set xs. \<exists>c cs. x = c # cs \<and> opens c
    \<Longrightarrow> \<exists>c cs. commas xs = c # cs \<and> opens c"
  by (induction xs rule: commas.induct) auto

lemma member_start:
  "\<exists>c. (\<exists>cs. (case kv of (k, v) \<Rightarrow> quote k @ CHR '':'' # stringify v) = c # cs) \<and> opens c"
  by (cases kv) (simp add: quote_def opens_def is_ws_def)

lemma read_value_stringify:
  "closes rest \<Longrightarrow> length (stringify v) \<le> n \<Longrightarrow> read_value n (stringify v @ rest) = Some (v, rest)"
proof (induction v arbitrary: rest n)
  case JNull
  from JNull(2) obtain m where "n = Suc m" by (cases n) auto
  then show ?case using read_value_null [of m rest] by simp
next
  case (JBool b)
  from JBool(2) stringify_length [of "JBool b"] obtain m where "n = Suc m" by (cases n) auto
  then show ?case using read_value_true [of m rest] read_value_false [of m rest] by simp
next
  case (JNum i)
  from JNum(2) stringify_length [of "JNum i"] obtain m where "n = Suc m" by (cases n) auto
  then show ?case using read_value_number [OF JNum(1), of m i] by simp
next
  case (JStr s)
  from JStr(2) stringify_length [of "JStr s"] obtain m where "n = Suc m" by (cases n) auto
  then show ?case using read_value_string [of m s rest] by simp
next
  case (JArr xs)
  from JArr(3) obtain m where m: "n = Suc m" by (cases n) auto
  show ?case
  proof (cases "xs = []")
    case True
    with m show ?thesis using read_value_array_empty [of m rest] by simp
  next
    case False
    let ?body = "commas (map stringify xs)"
    have "\<forall>x\<in>set (map stringify xs). \<exists>c cs. x = c # cs \<and> opens c"
      using stringify_start by auto
    with False obtain d ds where d: "?body = d # ds" "opens d"
      using commas_start [of "map stringify xs"] by auto
    from JArr(3) m have l: "length ?body < m" by simp
    have "read_elements m (?body @ CHR '']'' # rest) = Some (xs, rest)"
      using JArr(1) False l by (intro read_elements_commas) auto
    with read_value_array [OF d(2), of m "ds @ CHR '']'' # rest"] d(1) m
    show ?thesis by simp
  qed
next
  case (JObj kvs)
  from JObj(3) obtain m where m: "n = Suc m" by (cases n) auto
  show ?case
  proof (cases "kvs = []")
    case True
    with m show ?thesis using read_value_object_empty [of m rest] by simp
  next
    case False
    let ?body = "commas (map (\<lambda>(k, v). quote k @ CHR '':'' # stringify v) kvs)"
    have "\<forall>x\<in>set (map (\<lambda>(k, v). quote k @ CHR '':'' # stringify v) kvs). \<exists>c cs. x = c # cs \<and> opens c"
      by (simp add: member_start)
    with False obtain d ds where d: "?body = d # ds" "opens d"
      using commas_start [of "map (\<lambda>(k, v). quote k @ CHR '':'' # stringify v) kvs"] by auto
    from JObj(3) m have l: "length ?body < m" by simp
    have "read_members m (?body @ CHR ''}'' # rest) = Some (kvs, rest)"
    proof (intro read_members_commas False l)
      fix k v rest n
      assume "(k, v) \<in> set kvs" "closes rest" "length (stringify v) \<le> n"
      then show "read_value n (stringify v @ rest) = Some (v, rest)"
        using JObj(1) [of "(k, v)" v rest n] by simp
    qed
    with read_value_object [OF d(2), of m "ds @ CHR ''}'' # rest"] d(1) m
    show ?thesis by simp
  qed
qed

text \<open>Serialisation followed by deserialisation is the identity on every value.\<close>

theorem parse_stringify: "parse (stringify v) = Some v"
  using read_value_stringify [of "[]" v "Suc (length (stringify v))"]
  by (simp add: parse_def skip_ws_def)

subsection \<open>Sample values\<close>

lemma report_props:
  "report \<noteq> JNull" "property report ''id'' = Some (JNum 1000)"
  "property report ''text'' = Some (JStr ''Write report'')"
  "is_completed report = False" "is_completed (flip_completed report) = True"
  "flip_completed report \<noteq> JNull" "JNull \<noteq> report" "JNull \<noteq> flip_completed report"
  by (simp_all add: report_def newTask_def is_completed_def)

lemma dentist_props:
  "dentist \<noteq> JNull" "property dentist ''id'' = Some (JNum 2000)"
  "property dentist ''text'' = Some (JStr ''Call dentist'')"
  "is_completed dentist = False" "JNull \<noteq> dentist"
  by (simp_all add: dentist_def newTask_def is_completed_def)

lemma parse_one: "parse ''[1]'' = Some (JArr [JNum 1])"
  by code_simp

lemma stringify_one: "stringify (JArr [JNum 1]) = ''[1]''"
  by code_simp

lemma parse_objects: "parse ''[{}]'' = Some (JArr [JObj []])"
  by code_simp

lemma parse_null: "parse ''null'' = Some JNull"
  by code_simp

lemma odd_length_raises: "length_text_raises odd_length"
  by (simp add: odd_length_def length_text_raises_def)

lemma odd_elements_raises: "length_text_raises odd_elements"
  by (simp add: odd_elements_def length_text_raises_def)

lemma plain_length_fine: "\<not> length_text_raises (JObj [(''length'', JArr [JNull, JObj []])])"
  by (simp add: length_text_raises_def)

lemma parse_42: "parse ''42'' = Some (JNum 42)"
  by code_simp

lemma parse_empty: "parse '''' = None"
  by code_simp

lemma parse_broken: "parse ''[{'' = None"
  by code_simp

lemma parse_report: "parse (stringify (JArr [report])) = Some (JArr [report])"
  by (rule parse_stringify)

lemma is_space_blank:
  "is_space CHR 0x09" "is_space CHR 0x0A" "is_space CHR 0x0B" "is_space CHR 0x0C"
  "is_space CHR 0x0D" "is_space CHR 0x20" "is_space CHR 0xA0"
  by (simp_all add: is_space_def)

lemma trim_buy: "trim ''Buy milk'' = ''Buy milk''"
  by code_simp

lemma trim_buy2: "trim ''buy milk'' = ''buy milk''"
  by code_simp

lemma lower_buy: "toLowerCase ''Buy milk'' = ''buy milk''"
  by code_simp

lemma lower_buy2: "toLowerCase ''buy milk'' = ''buy milk''"
  by code_simp

lemma trim_report: "trim ''Write report'' = ''Write report''"
  by code_simp

lemma trim_dentist: "trim ''Call dentist'' = ''Call dentist''"
  by code_simp

lemma lower_report_dentist: "toLowerCase ''Write report'' \<noteq> toLowerCase ''Call dentist''"
  by code_simp


lemma stringify_not_empty: "stringify v \<noteq> ''''"
  using stringify_length [of v] by auto

subsection \<open>What saving leaves alone\<close>

lemma save_fields [simp]:
  "tasks (saveTasksToStorage P st) = tasks st"
  "inputValue (saveTasksToStorage P st) = inputValue st"
  "inputBorderColor (saveTasksToStorage P st) = inputBorderColor st"
  "dialogs (saveTasksToStorage P st) = dialogs st"
  "timers (saveTasksToStorage P st) = timers st"
  by (simp_all add: saveTasksToStorage_def split: option.splits)

subsection \<open>Adding: empty and duplicate texts\<close>

lemma trim_blank:
  assumes "\<forall>c\<in>set s. is_space c"
  shows "trim s = ''''"
proof -
  from assms have h: "dropWhile is_space s = []" by simp
  show ?thesis by (simp add: trim_def h)
qed

lemma toLowerCase_Nil [simp]: "(toLowerCase s = '''') = (s = '''')"
  by (simp add: toLowerCase_def)

text \<open>
  C7: in every state, adding the empty string or a string of white space only is rejected
  as empty: the handler marks the input with the colour \<open>#ff6b6b\<close> (and schedules the
  reset of that mark), raises nothing, and leaves the collection, the storage and the
  dialogs as they were.
\<close>

theorem add_blank_rejected:
  assumes "\<forall>c\<in>set (inputValue st). is_space c"
  shows "handleAddTask P now stamp st =
           (st\<lparr>inputBorderColor := ''#ff6b6b'', timers := timers st @ [(2000, ResetBorder)]\<rparr>, None)
         \<and> tasks (fst (handleAddTask P now stamp st)) = tasks st
         \<and> localStorage (fst (handleAddTask P now stamp st)) = localStorage st
         \<and> dialogs (fst (handleAddTask P now stamp st)) = dialogs st"
proof -
  have "trim (inputValue st) = ''''"
    using assms by (rule trim_blank)
  then show ?thesis
    by (simp add: handleAddTask_def)
qed

text \<open>Three blanks, nothing at all, and the seven white space characters one after the
  other, in the input of the fresh application.\<close>

theorem add_blank_rejected_witness:
  "handleAddTask browser 1000 ''2024-01-01T09:00:00.000Z'' ((initial Map.empty)\<lparr>inputValue := ''   ''\<rparr>) =
     ((initial Map.empty)\<lparr>inputValue := ''   '', inputBorderColor := ''#ff6b6b'',
        timers := [(2000, ResetBorder)]\<rparr>, None)
   \<and> handleAddTask browser 1000 ''2024-01-01T09:00:00.000Z'' (initial Map.empty) =
     ((initial Map.empty)\<lparr>inputBorderColor := ''#ff6b6b'', timers := [(2000, ResetBorder)]\<rparr>, None)
   \<and> tasks (fst (handleAddTask browser 1000 ''2024-01-01T09:00:00.000Z''
        ((initial Map.empty)\<lparr>inputValue := [CHR 0x09, CHR 0x0A, CHR 0x0B, CHR 0x0C, CHR 0x0D, CHR 0x20, CHR 0xA0]\<rparr>))) = JArr []"
  using add_blank_rejected [where st = "(initial Map.empty)\<lparr>inputValue := ''   ''\<rparr>" and P = browser
          and now = 1000 and stamp = "''2024-01-01T09:00:00.000Z''"]
        add_blank_rejected [where st = "(initial Map.empty)\<lparr>inputValue := [CHR 0x09, CHR 0x0A, CHR 0x0B, CHR 0x0C, CHR 0x0D, CHR 0x20, CHR 0xA0]\<rparr>"
          and P = browser and now = 1000 and stamp = "''2024-01-01T09:00:00.000Z''"]
        add_blank_rejected [where st = "initial Map.empty" and P = browser
          and now = 1000 and stamp = "''2024-01-01T09:00:00.000Z''"]
  by (simp add: initial_def is_space_blank)

lemma some_same_text_found:
  assumes "\<forall>task\<in>set xs. \<exists>s. property task ''text'' = Some (JStr s)"
  shows "some_same_text t xs =
           Inr (\<exists>task\<in>set xs. \<exists>s. property task ''text'' = Some (JStr s) \<and> toLowerCase s = toLowerCase t)"
  using assms
proof (induction xs)
  case Nil
  then show ?case by simp
next
  case (Cons x xs)
  then obtain s where s: "property x ''text'' = Some (JStr s)" by auto
  then have "x \<noteq> JNull" by auto
  with s Cons show ?case
    by (cases x) auto
qed

text \<open>
  C8: when the tasks of the collection have non-empty texts and one of them equals the
  trimmed input up to case, adding is rejected as a duplicate: the handler shows the alert
  \<open>This task already exists!\<close> and leaves the collection and the storage unchanged.
\<close>

theorem add_duplicate_rejected:
  assumes "tasks st = JArr xs"
    and "\<forall>task\<in>set xs. \<exists>s. s \<noteq> '''' \<and> property task ''text'' = Some (JStr s)"
    and "\<exists>task\<in>set xs. \<exists>s. property task ''text'' = Some (JStr s)
           \<and> toLowerCase s = toLowerCase (trim (inputValue st))"
  shows "handleAddTask P now stamp st =
           (st\<lparr>dialogs := dialogs st @ [Alert ''This task already exists!'']\<rparr>, None)
         \<and> tasks (fst (handleAddTask P now stamp st)) = tasks st
         \<and> localStorage (fst (handleAddTask P now stamp st)) = localStorage st"
proof -
  from assms(3) obtain task s where ts: "task \<in> set xs" "property task ''text'' = Some (JStr s)"
    "toLowerCase s = toLowerCase (trim (inputValue st))" by blast
  with assms(2) have "s \<noteq> ''''" by fastforce
  with ts(3) have ne: "trim (inputValue st) \<noteq> ''''"
    by (metis toLowerCase_Nil)
  from assms(2) have "\<forall>task\<in>set xs. \<exists>s. property task ''text'' = Some (JStr s)"
    by blast
  from some_same_text_found [OF this] assms(3)
  have "some_same_text (trim (inputValue st)) xs = Inr True"
    by simp
  with ne assms(1) show ?thesis
    by (simp add: handleAddTask_def)
qed

text \<open>\<open>trim\<close> strips the ends only, and no other control character; \<open>toLowerCase\<close> at the
  bounds of the two ranges it folds.\<close>

lemma trim_inner:
  "trim [CHR 0x0B, CHR 0x1F, CHR ''a'', CHR 0xA0, CHR ''b'', CHR 0x85, CHR 0x0C] =
     [CHR 0x1F, CHR ''a'', CHR 0xA0, CHR ''b'', CHR 0x85]"
  by code_simp

lemma lower_bounds:
  "toLowerCase [CHR ''@'', CHR ''A'', CHR ''Z'', CHR ''['', CHR 0xBF, CHR 0xC0, CHR 0xD6, CHR 0xD7,
                CHR 0xD8, CHR 0xDE, CHR 0xDF, CHR 0xF7, CHR 0xFF] =
     [CHR ''@'', CHR ''a'', CHR ''z'', CHR ''['', CHR 0xBF, CHR 0xE0, CHR 0xF6, CHR 0xD7,
      CHR 0xF8, CHR 0xFE, CHR 0xDF, CHR 0xF7, CHR 0xFF]"
  by code_simp

lemma trim_cafe:
  "trim [CHR 0xA0, CHR ''c'', CHR ''a'', CHR ''f'', CHR 0xE9, CHR '' ''] =
     [CHR ''c'', CHR ''a'', CHR ''f'', CHR 0xE9]"
  by code_simp

lemma lower_cafe:
  "toLowerCase [CHR ''C'', CHR ''A'', CHR ''F'', CHR 0xC9] = [CHR ''c'', CHR ''a'', CHR ''f'', CHR 0xE9]"
  "toLowerCase [CHR ''c'', CHR ''a'', CHR ''f'', CHR 0xE9] = [CHR ''c'', CHR ''a'', CHR ''f'', CHR 0xE9]"
  by code_simp+

lemma first_add:
  "tasks (fst (handleAddTask P now stamp ((initial sto)\<lparr>inputValue := ''Buy milk''\<rparr>))) =
     JArr [newTask now ''Buy milk'' stamp]"
  by (simp add: handleAddTask_def initial_def trim_buy Let_def)

text \<open>\<open>Buy milk\<close> is added to the empty collection, then \<open>buy milk\<close>: the second call is
  rejected and the collection still holds the first task only. And beside a task CAF
  followed by U+00C9, the input caf followed by U+00E9, between a no-break space and a
  blank, is rejected.\<close>

theorem add_duplicate_rejected_witness:
  "tasks (fst (handleAddTask browser 1000 ''t1'' ((initial Map.empty)\<lparr>inputValue := ''Buy milk''\<rparr>))) =
     JArr [newTask 1000 ''Buy milk'' ''t1'']
   \<and> tasks (fst (handleAddTask browser 2000 ''t2''
        ((fst (handleAddTask browser 1000 ''t1'' ((initial Map.empty)\<lparr>inputValue := ''Buy milk''\<rparr>)))
           \<lparr>inputValue := ''buy milk''\<rparr>))) = JArr [newTask 1000 ''Buy milk'' ''t1'']
   \<and> dialogs (fst (handleAddTask browser 2000 ''t2''
        ((fst (handleAddTask browser 1000 ''t1'' ((initial Map.empty)\<lparr>inputValue := ''Buy milk''\<rparr>)))
           \<lparr>inputValue := ''buy milk''\<rparr>))) = [Alert ''This task already exists!'']
   \<and> handleAddTask browser 2000 ''t2''
        ((initial Map.empty)
           \<lparr>tasks := JArr [newTask 1000 [CHR ''C'', CHR ''A'', CHR ''F'', CHR 0xC9] ''t1''],
            inputValue := [CHR 0xA0, CHR ''c'', CHR ''a'', CHR ''f'', CHR 0xE9, CHR '' '']\<rparr>) =
       ((initial Map.empty)
           \<lparr>tasks := JArr [newTask 1000 [CHR ''C'', CHR ''A'', CHR ''F'', CHR 0xC9] ''t1''],
            inputValue := [CHR 0xA0, CHR ''c'', CHR ''a'', CHR ''f'', CHR 0xE9, CHR '' ''],
            dialogs := [Alert ''This task already exists!'']\<rparr>, None)"
proof -
  have milk:
    "tasks (fst (handleAddTask browser 1000 ''t1'' ((initial Map.empty)\<lparr>inputValue := ''Buy milk''\<rparr>))) =
       JArr [newTask 1000 ''Buy milk'' ''t1'']
     \<and> tasks (fst (handleAddTask browser 2000 ''t2''
          ((fst (handleAddTask browser 1000 ''t1'' ((initial Map.empty)\<lparr>inputValue := ''Buy milk''\<rparr>)))
             \<lparr>inputValue := ''buy milk''\<rparr>))) = JArr [newTask 1000 ''Buy milk'' ''t1'']
     \<and> dialogs (fst (handleAddTask browser 2000 ''t2''
          ((fst (handleAddTask browser 1000 ''t1'' ((initial Map.empty)\<lparr>inputValue := ''Buy milk''\<rparr>)))
             \<lparr>inputValue := ''buy milk''\<rparr>))) = [Alert ''This task already exists!'']"
    using add_duplicate_rejected
      [where st = "(fst (handleAddTask browser 1000 ''t1''
                      ((initial Map.empty)\<lparr>inputValue := ''Buy milk''\<rparr>)))
                    \<lparr>inputValue := ''buy milk''\<rparr>"
         and xs = "[newTask 1000 ''Buy milk'' ''t1'']" and P = browser and now = 2000
         and stamp = "''t2''"]
    by (simp add: first_add trim_buy2 lower_buy lower_buy2 newTask_def)
       (simp add: handleAddTask_def initial_def trim_buy Let_def)
  have cafe:
    "handleAddTask browser 2000 ''t2''
        ((initial Map.empty)
           \<lparr>tasks := JArr [newTask 1000 [CHR ''C'', CHR ''A'', CHR ''F'', CHR 0xC9] ''t1''],
            inputValue := [CHR 0xA0, CHR ''c'', CHR ''a'', CHR ''f'', CHR 0xE9, CHR '' '']\<rparr>) =
       ((initial Map.empty)
           \<lparr>tasks := JArr [newTask 1000 [CHR ''C'', CHR ''A'', CHR ''F'', CHR 0xC9] ''t1''],
            inputValue := [CHR 0xA0, CHR ''c'', CHR ''a'', CHR ''f'', CHR 0xE9, CHR '' ''],
            dialogs := [Alert ''This task already exists!'']\<rparr>, None)"
    using add_duplicate_rejected
      [where st = "(initial Map.empty)
           \<lparr>tasks := JArr [newTask 1000 [CHR ''C'', CHR ''A'', CHR ''F'', CHR 0xC9] ''t1''],
            inputValue := [CHR 0xA0, CHR ''c'', CHR ''a'', CHR ''f'', CHR 0xE9, CHR '' '']\<rparr>"
         and xs = "[newTask 1000 [CHR ''C'', CHR ''A'', CHR ''F'', CHR 0xC9] ''t1'']"
         and P = browser and now = 2000 and stamp = "''t2''"]
    by (simp add: trim_cafe lower_cafe newTask_def initial_def)
  from milk cafe show ?thesis by blast
qed

subsection \<open>Toggling\<close>

lemma map_of_assign: "map_of (assign k v kvs) = (map_of kvs)(k \<mapsto> v)"
  by (induction kvs) auto

lemma find_task_none:
  "\<forall>task\<in>set xs. task \<noteq> JNull \<and> property task ''id'' \<noteq> Some (JNum taskId)
    \<Longrightarrow> find_task taskId xs = Inr None"
  by (induction xs) (auto split: jsval.splits)

lemma find_task_first:
  "i < length xs \<Longrightarrow> property (xs ! i) ''id'' = Some (JNum taskId)
    \<Longrightarrow> \<forall>j<i. xs ! j \<noteq> JNull \<and> property (xs ! j) ''id'' \<noteq> Some (JNum taskId)
    \<Longrightarrow> find_task taskId xs = Inr (Some i)"
proof (induction xs arbitrary: i)
  case Nil
  then show ?case by simp
next
  case (Cons x xs)
  show ?case
  proof (cases i)
    case 0
    with Cons.prems have "property x ''id'' = Some (JNum taskId)" by simp
    then show ?thesis using 0 by (cases x) auto
  next
    case (Suc k)
    with Cons.prems have x: "x \<noteq> JNull" "property x ''id'' \<noteq> Some (JNum taskId)"
      by auto
    from Suc Cons.prems have "find_task taskId xs = Inr (Some k)"
      by (intro Cons.IH) auto
    with x Suc show ?thesis by (cases x) auto
  qed
qed

lemma flip_completed_props:
  assumes "property task ''id'' = Some v"
  shows "property (flip_completed task) ''completed'' = Some (JBool (\<not> is_completed task))"
    and "k \<noteq> ''completed'' \<Longrightarrow> property (flip_completed task) k = property task k"
  using assms by (cases task; simp add: map_of_assign is_completed_def)+

text \<open>
  C9: on a collection of tasks, toggling an id that no task has changes nothing at all and
  raises nothing; toggling the id of a task (the first one with that id, at index \<open>i\<close>)
  replaces that task by itself with \<open>completed\<close> negated, every other property and every
  other task being as before.
\<close>

theorem toggle_flips_or_noop:
  assumes "tasks st = JArr xs"
  shows "((\<forall>task\<in>set xs. task \<noteq> JNull \<and> property task ''id'' \<noteq> Some (JNum taskId))
            \<longrightarrow> toggleTaskCompletion P taskId st = (st, None))
       \<and> (i < length xs \<and> property (xs ! i) ''id'' = Some (JNum taskId)
            \<and> (\<forall>j<i. xs ! j \<noteq> JNull \<and> property (xs ! j) ''id'' \<noteq> Some (JNum taskId))
            \<longrightarrow> tasks (fst (toggleTaskCompletion P taskId st)) = JArr (xs[i := flip_completed (xs ! i)])
              \<and> property (flip_completed (xs ! i)) ''completed'' = Some (JBool (\<not> is_completed (xs ! i)))
              \<and> (\<forall>k. k \<noteq> ''completed'' \<longrightarrow> property (flip_completed (xs ! i)) k = property (xs ! i) k))"
proof (intro conjI impI)
  assume "\<forall>task\<in>set xs. task \<noteq> JNull \<and> property task ''id'' \<noteq> Some (JNum taskId)"
  then have "find_task taskId xs = Inr None" by (rule find_task_none)
  with assms show "toggleTaskCompletion P taskId st = (st, None)"
    by (simp add: toggleTaskCompletion_def)
next
  assume a: "i < length xs \<and> property (xs ! i) ''id'' = Some (JNum taskId)
            \<and> (\<forall>j<i. xs ! j \<noteq> JNull \<and> property (xs ! j) ''id'' \<noteq> Some (JNum taskId))"
  then have "find_task taskId xs = Inr (Some i)" by (intro find_task_first) auto
  with assms show "tasks (fst (toggleTaskCompletion P taskId st)) = JArr (xs[i := flip_completed (xs ! i)])"
    by (simp add: toggleTaskCompletion_def Let_def)
  from a show "property (flip_completed (xs ! i)) ''completed'' = Some (JBool (\<not> is_completed (xs ! i)))"
    by (intro flip_completed_props(1)) auto
  from a show "\<forall>k. k \<noteq> ''completed'' \<longrightarrow> property (flip_completed (xs ! i)) k = property (xs ! i) k"
    using flip_completed_props(2) by blast
qed

text \<open>Of two tasks the second is toggled by its id; an id that neither has changes
  nothing.\<close>

theorem toggle_flips_or_noop_witness:
  "toggleTaskCompletion browser 3000 two_tasks = (two_tasks, None)
   \<and> tasks (fst (toggleTaskCompletion browser 2000 two_tasks)) = JArr [report, flip_completed dentist]
   \<and> property (flip_completed dentist) ''completed'' = Some (JBool True)"
  using toggle_flips_or_noop [where st = two_tasks and xs = "[report, dentist]"
      and taskId = 3000 and P = browser and i = 0]
        toggle_flips_or_noop [where st = two_tasks and xs = "[report, dentist]"
            and taskId = 2000 and P = browser and i = 1]
  by (simp add: two_tasks_def report_props dentist_props less_Suc_eq)

subsection \<open>Loading\<close>

text \<open>
  C6 (as amended): at start-up, when the storage entry is absent or is the empty string,
  loading leaves the collection empty and reports nothing; when the entry is a non-empty
  string that \<open>JSON.parse\<close> rejects, loading returns with the collection empty and the
  condition reported with \<open>console.error\<close>. Loading never raises: its whole body is
  inside \<open>try\<close>.
\<close>

theorem load_absent_or_malformed:
  "((sto STORAGE_KEY = None \<or> sto STORAGE_KEY = Some '''')
      \<longrightarrow> loadTasksFromStorage P (initial sto) = initial sto \<and> tasks (initial sto) = JArr [])
   \<and> (localStorage st STORAGE_KEY = Some s \<and> s \<noteq> '''' \<and> JSON_parse P s = None
      \<longrightarrow> tasks (loadTasksFromStorage P st) = JArr []
        \<and> console (loadTasksFromStorage P st) = console st @ [''Error loading tasks from storage:''])"
  by (auto simp: loadTasksFromStorage_def initial_def)

text \<open>Start-up on an empty storage, and on an entry that breaks off after \<open>[{\<close>.\<close>

theorem load_absent_or_malformed_witness:
  "loadTasksFromStorage browser (initial Map.empty) = initial Map.empty
   \<and> tasks (loadTasksFromStorage browser (initial [STORAGE_KEY \<mapsto> ''[{''])) = JArr []
   \<and> console (loadTasksFromStorage browser (initial [STORAGE_KEY \<mapsto> ''[{''])) =
       [''Error loading tasks from storage:'']"
  using load_absent_or_malformed [where sto = Map.empty and P = browser
      and st = "initial [STORAGE_KEY \<mapsto> ''[{'']" and s = "''[{''"]
  by (simp add: initial_def browser_def parse_broken)

text \<open>An entry that is the empty string does not parse, and loading reports nothing.\<close>

theorem load_reports_empty_string_counterexample:
  "JSON_parse browser '''' = None
   \<and> console (loadTasksFromStorage browser (initial [STORAGE_KEY \<mapsto> ''''])) = []"
  by (simp add: loadTasksFromStorage_def initial_def browser_def parse_empty)

lemma length_text_never_raises:
  "\<not> length_text_raises (JBool b)" "\<not> length_text_raises (JNum n)"
  "\<not> length_text_raises (JStr t)" "\<not> length_text_raises (JArr xs)"
  by (simp_all add: length_text_raises_def)

text \<open>
  C10: loading checks no shape. Whatever value the stored text parses to becomes the
  collection, with nothing reported, unless building the log line from its \<open>length\<close>
  raises; then the collection is reset to empty and the condition reported. The log line
  never raises for a boolean, a number, a string or an array, whatever the array holds.
\<close>

theorem load_installs_any_value:
  assumes "localStorage st STORAGE_KEY = Some s" and "s \<noteq> ''''"
    and "JSON_parse P s = Some v"
  shows "(\<not> length_text_raises v \<longrightarrow> loadTasksFromStorage P st = st\<lparr>tasks := v\<rparr>)
       \<and> (length_text_raises v \<longrightarrow>
            tasks (loadTasksFromStorage P st) = JArr []
          \<and> console (loadTasksFromStorage P st) =
              console st @ [''Error loading tasks from storage:''])
       \<and> \<not> length_text_raises (JBool b) \<and> \<not> length_text_raises (JNum n)
       \<and> \<not> length_text_raises (JStr t) \<and> \<not> length_text_raises (JArr xs)"
  using assms by (simp add: loadTasksFromStorage_def length_text_never_raises)

text \<open>The stored text \<open>42\<close> makes the number 42 the collection, the stored text \<open>[{}]\<close>
  an array of one empty object. An object whose \<open>length\<close> is an object with a property
  \<open>toString\<close>, or an array with such an element, is dropped and reported, and so is
  \<open>null\<close>; an object whose \<open>length\<close> is an array of \<open>null\<close> and an empty object is kept.\<close>

theorem load_installs_any_value_witness:
  "loadTasksFromStorage browser (initial [STORAGE_KEY \<mapsto> ''42'']) =
     (initial [STORAGE_KEY \<mapsto> ''42''])\<lparr>tasks := JNum 42\<rparr>
   \<and> loadTasksFromStorage browser (initial [STORAGE_KEY \<mapsto> ''[{}]'']) =
     (initial [STORAGE_KEY \<mapsto> ''[{}]''])\<lparr>tasks := JArr [JObj []]\<rparr>
   \<and> tasks (loadTasksFromStorage browser (initial [STORAGE_KEY \<mapsto> stringify odd_length])) = JArr []
   \<and> console (loadTasksFromStorage browser (initial [STORAGE_KEY \<mapsto> stringify odd_length])) =
       [''Error loading tasks from storage:'']
   \<and> tasks (loadTasksFromStorage browser (initial [STORAGE_KEY \<mapsto> stringify odd_elements])) = JArr []
   \<and> console (loadTasksFromStorage browser (initial [STORAGE_KEY \<mapsto> stringify odd_elements])) =
       [''Error loading tasks from storage:'']
   \<and> tasks (loadTasksFromStorage browser
        (initial [STORAGE_KEY \<mapsto> stringify (JObj [(''length'', JArr [JNull, JObj []])])])) =
       JObj [(''length'', JArr [JNull, JObj []])]
   \<and> tasks (loadTasksFromStorage browser (initial [STORAGE_KEY \<mapsto> ''null''])) = JArr []
   \<and> console (loadTasksFromStorage browser (initial [STORAGE_KEY \<mapsto> ''null''])) =
       [''Error loading tasks from storage:'']"
proof -
  have 1: "loadTasksFromStorage browser (initial [STORAGE_KEY \<mapsto> ''42'']) =
     (initial [STORAGE_KEY \<mapsto> ''42''])\<lparr>tasks := JNum 42\<rparr>"
    using load_installs_any_value [where st = "initial [STORAGE_KEY \<mapsto> ''42'']"
        and s = "''42''" and P = browser and v = "JNum 42" and n = 42]
    by (simp add: initial_def browser_def parse_42)
  have 2: "loadTasksFromStorage browser (initial [STORAGE_KEY \<mapsto> ''[{}]'']) =
     (initial [STORAGE_KEY \<mapsto> ''[{}]''])\<lparr>tasks := JArr [JObj []]\<rparr>"
    using load_installs_any_value [where st = "initial [STORAGE_KEY \<mapsto> ''[{}]'']"
        and s = "''[{}]''" and P = browser and v = "JArr [JObj []]" and xs = "[JObj []]"]
    by (simp add: initial_def browser_def parse_objects)
  have 3: "tasks (loadTasksFromStorage browser (initial [STORAGE_KEY \<mapsto> stringify odd_length])) = JArr []
   \<and> console (loadTasksFromStorage browser (initial [STORAGE_KEY \<mapsto> stringify odd_length])) =
       [''Error loading tasks from storage:'']"
    using load_installs_any_value [where st = "initial [STORAGE_KEY \<mapsto> stringify odd_length]"
        and s = "stringify odd_length" and P = browser and v = odd_length]
      odd_length_raises
    by (simp add: initial_def browser_def parse_stringify stringify_not_empty del: stringify.simps)
  have 4: "tasks (loadTasksFromStorage browser (initial [STORAGE_KEY \<mapsto> stringify odd_elements])) = JArr []
   \<and> console (loadTasksFromStorage browser (initial [STORAGE_KEY \<mapsto> stringify odd_elements])) =
       [''Error loading tasks from storage:'']"
    using load_installs_any_value [where st = "initial [STORAGE_KEY \<mapsto> stringify odd_elements]"
        and s = "stringify odd_elements" and P = browser and v = odd_elements]
      odd_elements_raises
    by (simp add: initial_def browser_def parse_stringify stringify_not_empty del: stringify.simps)
  have 5: "tasks (loadTasksFromStorage browser
        (initial [STORAGE_KEY \<mapsto> stringify (JObj [(''length'', JArr [JNull, JObj []])])])) =
       JObj [(''length'', JArr [JNull, JObj []])]"
    using load_installs_any_value
        [where st = "initial [STORAGE_KEY \<mapsto> stringify (JObj [(''length'', JArr [JNull, JObj []])])]"
        and s = "stringify (JObj [(''length'', JArr [JNull, JObj []])])" and P = browser
        and v = "JObj [(''length'', JArr [JNull, JObj []])]"]
      plain_length_fine
    by (simp add: initial_def browser_def parse_stringify stringify_not_empty del: stringify.simps)
  have 6: "tasks (loadTasksFromStorage browser (initial [STORAGE_KEY \<mapsto> ''null''])) = JArr []
   \<and> console (loadTasksFromStorage browser (initial [STORAGE_KEY \<mapsto> ''null''])) =
       [''Error loading tasks from storage:'']"
    using load_installs_any_value [where st = "initial [STORAGE_KEY \<mapsto> ''null'']"
        and s = "''null''" and P = browser and v = JNull]
    by (simp add: initial_def browser_def parse_null length_text_raises_def)
  from 1 2 3 4 5 6 show ?thesis by blast
qed

text \<open>
  C5 (as amended): for every collection, an array of any values, whose write goes through
  (\<open>localStorage.setItem\<close> does not raise, whatever else the storage refuses), loading
  after saving gives the collection back, in content and order: in the same session, and
  in a fresh one started on the same storage. Serialisation and deserialisation are those
  of the reference platform.
\<close>

theorem load_after_save:
  assumes "tasks st = JArr xs"
    and "\<not> full (localStorage st) STORAGE_KEY (stringify (JArr xs))"
  shows "tasks (loadTasksFromStorage (browser\<lparr>setItem_throws := full\<rparr>)
                  (saveTasksToStorage (browser\<lparr>setItem_throws := full\<rparr>) st)) = JArr xs
       \<and> tasks (loadTasksFromStorage (browser\<lparr>setItem_throws := full\<rparr>)
                  (initial (localStorage (saveTasksToStorage (browser\<lparr>setItem_throws := full\<rparr>) st))))
           = JArr xs"
proof -
  have "stringify (JArr xs) \<noteq> ''''"
    using stringify_length [of "JArr xs"] by auto
  with assms show ?thesis
    by (simp add: loadTasksFromStorage_def saveTasksToStorage_def initial_def browser_def
          parse_stringify length_text_never_raises del: stringify.simps)
qed

text \<open>Two tasks saved, and loaded in the same session and in the next.\<close>

theorem load_after_save_witness:
  "tasks (loadTasksFromStorage browser (saveTasksToStorage browser two_tasks)) = JArr [report, dentist]
   \<and> tasks (loadTasksFromStorage browser (initial (localStorage (saveTasksToStorage browser two_tasks))))
       = JArr [report, dentist]"
  using load_after_save [where st = two_tasks and xs = "[report, dentist]"
      and full = "\<lambda>sto k v. False"]
  by (simp add: browser_def two_tasks_def)

text \<open>With the storage full, the write is dropped, and a fresh session loads the empty
  collection instead of the saved one.\<close>

theorem load_after_failed_save_counterexample:
  "tasks (loadTasksFromStorage full_browser
            (initial (localStorage (saveTasksToStorage full_browser ((initial Map.empty)\<lparr>tasks := JArr [report]\<rparr>)))))
     = JArr []
   \<and> JArr [report] \<noteq> JArr []"
  by (simp add: loadTasksFromStorage_def saveTasksToStorage_def full_browser_def browser_def
        initial_def STORAGE_KEY_def)

subsection \<open>Clearing the completed tasks\<close>

text \<open>
  C4 (as amended): on a collection of tasks without a completed one, the handler shows the
  alert \<open>No completed tasks to clear!\<close> and changes nothing else. On a collection with
  \<open>N > 0\<close> completed tasks it asks for confirmation, naming \<open>N\<close> in the question; when the
  user confirms it removes exactly the completed tasks (the others stay, in order, and
  there are \<open>N\<close> fewer tasks), and when the user declines the collection and the storage
  stay as they were.
\<close>

theorem clear_completed:
  assumes "tasks st = JArr xs" and "JNull \<notin> set xs"
  shows "((\<forall>task\<in>set xs. \<not> is_completed task)
            \<longrightarrow> handleClearCompleted P confirmed st =
                  (st\<lparr>dialogs := dialogs st @ [Alert ''No completed tasks to clear!'']\<rparr>, None))
       \<and> ((\<exists>task\<in>set xs. is_completed task)
            \<longrightarrow> dialogs (fst (handleClearCompleted P confirmed st)) =
                  dialogs st @ [Confirm ''Are you sure you want to delete ''
                                  (length (filter is_completed xs)) '' completed task(s)?'']
              \<and> (confirmed \<longrightarrow>
                    tasks (fst (handleClearCompleted P confirmed st)) =
                      JArr (filter (\<lambda>task. \<not> is_completed task) xs)
                  \<and> length (filter (\<lambda>task. \<not> is_completed task) xs) + length (filter is_completed xs)
                      = length xs)
              \<and> (\<not> confirmed \<longrightarrow>
                    tasks (fst (handleClearCompleted P confirmed st)) = tasks st
                  \<and> localStorage (fst (handleClearCompleted P confirmed st)) = localStorage st))"
proof (intro conjI impI)
  assume "\<forall>task\<in>set xs. \<not> is_completed task"
  then have "filter is_completed xs = []" by (simp add: filter_empty_conv)
  with assms show "handleClearCompleted P confirmed st =
                  (st\<lparr>dialogs := dialogs st @ [Alert ''No completed tasks to clear!'']\<rparr>, None)"
    by (simp add: handleClearCompleted_def)
next
  assume "\<exists>task\<in>set xs. is_completed task"
  then have ne: "filter is_completed xs \<noteq> []" by (simp add: filter_empty_conv)
  with assms show "dialogs (fst (handleClearCompleted P confirmed st)) =
                  dialogs st @ [Confirm ''Are you sure you want to delete ''
                                  (length (filter is_completed xs)) '' completed task(s)?'']"
    by (simp add: handleClearCompleted_def Let_def)
  {
    assume confirmed
    with ne assms show "tasks (fst (handleClearCompleted P confirmed st)) =
                      JArr (filter (\<lambda>task. \<not> is_completed task) xs)"
      by (simp add: handleClearCompleted_def Let_def)
    show "length (filter (\<lambda>task. \<not> is_completed task) xs) + length (filter is_completed xs) = length xs"
      using sum_length_filter_compl [of is_completed xs] by simp
  }
  {
    assume "\<not> confirmed"
    with ne assms show "tasks (fst (handleClearCompleted P confirmed st)) = tasks st"
      by (simp add: handleClearCompleted_def Let_def)
    from \<open>\<not> confirmed\<close> ne assms
    show "localStorage (fst (handleClearCompleted P confirmed st)) = localStorage st"
      by (simp add: handleClearCompleted_def Let_def)
  }
qed

text \<open>Nothing completed among two tasks; then one of two completed, and confirmed.\<close>

theorem clear_completed_witness:
  "handleClearCompleted browser True two_tasks =
     (two_tasks\<lparr>dialogs := [Alert ''No completed tasks to clear!'']\<rparr>, None)
   \<and> tasks (fst (handleClearCompleted browser True one_done)) = JArr [dentist]
   \<and> dialogs (fst (handleClearCompleted browser True one_done)) =
       [Confirm ''Are you sure you want to delete '' 1 '' completed task(s)?'']"
  using clear_completed [where st = two_tasks and xs = "[report, dentist]" and confirmed = True
      and P = browser]
        clear_completed [where st = one_done and xs = "[flip_completed report, dentist]"
            and confirmed = True and P = browser]
  by (simp add: two_tasks_def one_done_def report_props dentist_props initial_def)

text \<open>One task is completed and the user declines: the task stays.\<close>

theorem clear_declined_counterexample:
  "is_completed (flip_completed report)
   \<and> tasks one_done = JArr [flip_completed report, dentist]
   \<and> tasks (fst (handleClearCompleted browser False one_done)) = JArr [flip_completed report, dentist]"
  by (simp add: handleClearCompleted_def one_done_def report_props dentist_props initial_def Let_def)

subsection \<open>Every change of the collection is saved\<close>

lemma persisted_save:
  assumes "localStorage st1 = localStorage st" and "console st1 = console st"
  shows "persisted P st (saveTasksToStorage P st1)"
  using assms by (simp add: persisted_def saveTasksToStorage_def split: option.splits)

lemma persisted_import_error:
  "persisted P st st' \<Longrightarrow> length (console st) \<le> length (console st') \<Longrightarrow> persisted P st (import_error st')"
  by (auto simp: persisted_def import_error_def Suc_diff_le split: option.splits if_splits)

lemma save_console_length: "length (console st) \<le> length (console (saveTasksToStorage P st))"
  by (simp add: saveTasksToStorage_def split: option.splits)

lemma import_error_fields [simp]:
  "tasks (import_error st) = tasks st"
  "localStorage (import_error st) = localStorage st"
  by (simp_all add: import_error_def)





lemma import_succeeds:
  assumes "JSON_parse P result = Some (JArr ys)"
  shows "tasks (importTasks P result True st) = JArr ys
       \<and> persisted P st (importTasks P result True st)"
proof -
  let ?st0 = "st\<lparr>dialogs := dialogs st @
                 [Confirm ''Import '' (length ys) '' tasks? This will replace your current tasks.''],
               tasks := JArr ys\<rparr>"
  have p: "persisted P st (saveTasksToStorage P ?st0)"
    by (rule persisted_save) simp_all
  have l: "length (console st) \<le> length (console (saveTasksToStorage P ?st0))"
    using save_console_length [of ?st0 P] by simp
  from assms have "importTasks P result True st = saveTasksToStorage P ?st0
      \<or> importTasks P result True st = import_error (saveTasksToStorage P ?st0)"
    by (simp add: importTasks_def Let_def split: option.splits)
  then show ?thesis
    using p persisted_import_error [OF p l] by auto
qed




subsection \<open>Import\<close>

text \<open>
  C1 (as amended): the import checks only that the text parses and that the parsed value is
  an array. When it does not parse or is not an array, the import reports an error and the
  collection and the storage stay as they were. When it is an array, of whatever elements,
  and the user confirms, the array replaces the collection and is saved; when the user
  declines, only the question was asked.
\<close>

theorem import_checks_array_only:
  "((JSON_parse P result = None \<or> (\<exists>v. JSON_parse P result = Some v \<and> (\<forall>ys. v \<noteq> JArr ys)))
      \<longrightarrow> importTasks P result confirmed st = import_error st
        \<and> tasks (importTasks P result confirmed st) = tasks st
        \<and> localStorage (importTasks P result confirmed st) = localStorage st)
   \<and> (JSON_parse P result = Some (JArr ys)
      \<longrightarrow> (confirmed \<longrightarrow> tasks (importTasks P result confirmed st) = JArr ys
                      \<and> persisted P st (importTasks P result confirmed st))
        \<and> (\<not> confirmed \<longrightarrow> importTasks P result confirmed st =
              st\<lparr>dialogs := dialogs st @
                   [Confirm ''Import '' (length ys) '' tasks? This will replace your current tasks.'']\<rparr>))"
proof (intro conjI impI)
  assume a: "JSON_parse P result = None \<or> (\<exists>v. JSON_parse P result = Some v \<and> (\<forall>ys. v \<noteq> JArr ys))"
  then show e: "importTasks P result confirmed st = import_error st"
    by (auto simp: importTasks_def split: jsval.splits)
  show "tasks (importTasks P result confirmed st) = tasks st"
    by (simp add: e)
  show "localStorage (importTasks P result confirmed st) = localStorage st"
    by (simp add: e)
next
  assume a: "JSON_parse P result = Some (JArr ys)" and c: confirmed
  from import_succeeds [OF a] c
  show "tasks (importTasks P result confirmed st) = JArr ys"
    and "persisted P st (importTasks P result confirmed st)"
    by simp_all
next
  assume a: "JSON_parse P result = Some (JArr ys)" and c: "\<not> confirmed"
  then show "importTasks P result confirmed st =
              st\<lparr>dialogs := dialogs st @
                   [Confirm ''Import '' (length ys) '' tasks? This will replace your current tasks.'']\<rparr>"
    by (simp add: importTasks_def)
qed

text \<open>A file holding a number, a file that breaks off, and a file holding an array of one
  task, confirmed and declined.\<close>

theorem import_checks_array_only_witness:
  "importTasks browser ''42'' True two_tasks = import_error two_tasks
   \<and> importTasks browser ''[{'' True two_tasks = import_error two_tasks
   \<and> tasks (importTasks browser (stringify (JArr [report])) True two_tasks) = JArr [report]
   \<and> tasks (importTasks browser (stringify (JArr [report])) False two_tasks) = JArr [report, dentist]"
  using import_checks_array_only [where P = browser and result = "''42''" and confirmed = True
      and st = two_tasks]
        import_checks_array_only [where P = browser and result = "''[{''" and confirmed = True
            and st = two_tasks]
        import_checks_array_only [where P = browser and result = "stringify (JArr [report])"
            and ys = "[report]" and confirmed = True and st = two_tasks]
        import_checks_array_only [where P = browser and result = "stringify (JArr [report])"
            and ys = "[report]" and confirmed = False and st = two_tasks]
        parse_42 parse_broken parse_report
  by (simp add: browser_def two_tasks_def)

text \<open>The file \<open>[1]\<close> is imported: its element has no \<open>id\<close>, no \<open>text\<close> and no
  \<open>completed\<close>, and it is the collection, in memory and in the storage, afterwards.\<close>

theorem import_unchecked_elements_counterexample:
  "tasks (importTasks browser ''[1]'' True two_tasks) = JArr [JNum 1]
   \<and> localStorage (importTasks browser ''[1]'' True two_tasks) STORAGE_KEY = Some ''[1]''
   \<and> property (JNum 1) ''id'' = None \<and> property (JNum 1) ''text'' = None
   \<and> property (JNum 1) ''completed'' = None"
  using parse_one stringify_one
  by (simp add: importTasks_def saveTasksToStorage_def browser_def Let_def del: stringify.simps)

subsection \<open>Sequences of operations\<close>

lemma text_key_SomeD: "text_key task \<noteq> None \<Longrightarrow> \<exists>s. property task ''text'' = Some (JStr s)"
  by (auto simp: text_key_def split: option.splits jsval.splits)

lemma some_same_text_keys:
  assumes "None \<notin> set (map text_key xs)"
  shows "some_same_text t xs = Inr (Some (toLowerCase t) \<in> set (map text_key xs))"
proof -
  from assms have a: "\<forall>task\<in>set xs. \<exists>s. property task ''text'' = Some (JStr s)"
    using text_key_SomeD by force
  have "(\<exists>task\<in>set xs. \<exists>s. property task ''text'' = Some (JStr s) \<and> toLowerCase s = toLowerCase t)
        = (Some (toLowerCase t) \<in> set (map text_key xs))"
    using a by (force simp: text_key_def image_iff)
  with some_same_text_found [OF a] show ?thesis by simp
qed

lemma text_key_newTask [simp]: "text_key (newTask now t stamp) = Some (toLowerCase t)"
  by (simp add: text_key_def newTask_def)

lemma id_key_newTask [simp]: "id_key (newTask now t stamp) = Some now"
  by (simp add: id_key_def newTask_def)

lemma find_task_SomeD:
  "find_task taskId xs = Inr (Some i) \<Longrightarrow> i < length xs \<and> property (xs ! i) ''id'' = Some (JNum taskId)"
proof (induction xs arbitrary: i)
  case Nil
  then show ?case by simp
next
  case (Cons x xs)
  show ?case
  proof (cases "property x ''id'' = Some (JNum taskId)")
    case True
    with Cons.prems have "i = 0" by (cases x) auto
    with True show ?thesis by simp
  next
    case False
    with Cons.prems obtain k where k: "find_task taskId xs = Inr (Some k)" "i = Suc k"
      by (cases x) (auto split: sum.splits option.splits)
    with Cons.IH show ?thesis by simp
  qed
qed

lemma text_key_flip [simp]: "text_key (flip_completed task) = text_key task"
  by (cases task) (simp_all add: text_key_def map_of_assign)

lemma id_key_flip [simp]: "id_key (flip_completed task) = id_key task"
  by (cases task) (simp_all add: id_key_def map_of_assign)

lemma map_update_same: "i < length xs \<Longrightarrow> f y = f (xs ! i) \<Longrightarrow> map f (xs[i := y]) = map f xs"
  by (simp add: map_update list_update_same_conv)

lemma tasks_add_cases:
  "tasks (fst (handleAddTask P now stamp st)) = tasks st
   \<or> (\<exists>xs. tasks st = JArr xs \<and> some_same_text (trim (inputValue st)) xs = Inr False
        \<and> tasks (fst (handleAddTask P now stamp st)) =
             JArr (xs @ [newTask now (trim (inputValue st)) stamp]))"
  by (auto simp: handleAddTask_def Let_def split: jsval.splits sum.splits)

lemma tasks_toggle_cases:
  "tasks (fst (toggleTaskCompletion P taskId st)) = tasks st
   \<or> (\<exists>xs i. tasks st = JArr xs \<and> i < length xs
        \<and> tasks (fst (toggleTaskCompletion P taskId st)) = JArr (xs[i := flip_completed (xs ! i)]))"
  by (auto simp: toggleTaskCompletion_def Let_def dest: find_task_SomeD
           split: jsval.splits sum.splits option.splits)

lemma tasks_fire_cases:
  "tasks (fst (fire_timer P i st)) = tasks st
   \<or> (\<exists>xs p. tasks st = JArr xs \<and> tasks (fst (fire_timer P i st)) = JArr (filter p xs))"
  by (auto simp: fire_timer_def run_callback_def Let_def split: jsval.splits callback.splits)

lemma tasks_deleteTask [simp]: "tasks (deleteTask elementFound taskId st) = tasks st"
  by (simp add: deleteTask_def)

lemma texts_unique_step: "texts_unique st \<Longrightarrow> texts_unique (step P st ev)"
proof (cases ev)
  case (Add t now stamp)
  assume u: "texts_unique st"
  let ?st = "st\<lparr>inputValue := t\<rparr>"
  from u have u': "texts_unique ?st" by (simp add: texts_unique_def)
  from tasks_add_cases [of P now stamp ?st] show ?thesis
  proof
    assume "tasks (fst (handleAddTask P now stamp ?st)) = tasks ?st"
    with u' Add show ?thesis by (simp add: texts_unique_def)
  next
    assume "\<exists>xs. tasks ?st = JArr xs \<and> some_same_text (trim (inputValue ?st)) xs = Inr False
        \<and> tasks (fst (handleAddTask P now stamp ?st)) =
             JArr (xs @ [newTask now (trim (inputValue ?st)) stamp])"
    then obtain xs where xs: "tasks ?st = JArr xs"
      "some_same_text (trim (inputValue ?st)) xs = Inr False"
      "tasks (fst (handleAddTask P now stamp ?st)) = JArr (xs @ [newTask now (trim (inputValue ?st)) stamp])"
      by blast
    from u' xs(1) have d: "None \<notin> set (map text_key xs)" "distinct (map text_key xs)"
      by (simp_all add: texts_unique_def)
    from some_same_text_keys [OF d(1)] xs(2)
    have "Some (toLowerCase (trim (inputValue ?st))) \<notin> set (map text_key xs)" by simp
    with d xs(3) Add show ?thesis
      by (simp add: texts_unique_def)
  qed
next
  case (Toggle taskId)
  assume u: "texts_unique st"
  from tasks_toggle_cases [of P taskId st] show ?thesis
  proof
    assume "tasks (fst (toggleTaskCompletion P taskId st)) = tasks st"
    with u Toggle show ?thesis by (simp add: texts_unique_def)
  next
    assume "\<exists>xs i. tasks st = JArr xs \<and> i < length xs
        \<and> tasks (fst (toggleTaskCompletion P taskId st)) = JArr (xs[i := flip_completed (xs ! i)])"
    then obtain xs i where xs: "tasks st = JArr xs" "i < length xs"
      "tasks (fst (toggleTaskCompletion P taskId st)) = JArr (xs[i := flip_completed (xs ! i)])"
      by blast
    have "map text_key (xs[i := flip_completed (xs ! i)]) = map text_key xs"
      using xs(2) by (intro map_update_same) simp_all
    with u xs Toggle show ?thesis by (simp add: texts_unique_def)
  qed
next
  case (Delete elementFound taskId)
  assume "texts_unique st"
  with Delete show ?thesis by (simp add: texts_unique_def)
next
  case (Fire i)
  assume u: "texts_unique st"
  from tasks_fire_cases [of P i st] show ?thesis
  proof
    assume "tasks (fst (fire_timer P i st)) = tasks st"
    with u Fire show ?thesis by (simp add: texts_unique_def)
  next
    assume "\<exists>xs p. tasks st = JArr xs \<and> tasks (fst (fire_timer P i st)) = JArr (filter p xs)"
    then obtain xs p where xs: "tasks st = JArr xs" "tasks (fst (fire_timer P i st)) = JArr (filter p xs)"
      by blast
    from u xs(1) have d: "None \<notin> set (map text_key xs)" "distinct (map text_key xs)"
      by (simp_all add: texts_unique_def)
    from d(1) have "None \<notin> set (map text_key (filter p xs))" by auto
    moreover from d(2) have "distinct (map text_key (filter p xs))" by (rule distinct_map_filter)
    ultimately show ?thesis using xs(2) Fire by (simp add: texts_unique_def)
  qed
qed

lemma texts_unique_run: "texts_unique st \<Longrightarrow> texts_unique (run P evs st)"
  unfolding run_def by (induction evs arbitrary: st) (simp_all add: texts_unique_step)

lemma texts_unique_initial: "texts_unique (initial sto)"
  by (simp add: texts_unique_def initial_def)

text \<open>After any sequence of operations from the empty collection, the tasks have texts
  that differ pairwise even up to case.\<close>

lemma texts_unique_always: "texts_unique (run P evs (initial sto))"
  by (intro texts_unique_run texts_unique_initial)

lemma ids_from_mono: "ids_from N st \<Longrightarrow> N \<subseteq> M \<Longrightarrow> ids_from M st"
proof (cases "tasks st")
  case (JArr xs)
  assume a: "ids_from N st" and s: "N \<subseteq> M"
  from a JArr have d: "distinct (map id_key xs)" and i: "set (map id_key xs) \<subseteq> Some ` N"
    by (simp_all add: ids_from_def)
  from i s have "set (map id_key xs) \<subseteq> Some ` M" by blast
  with d JArr show ?thesis by (simp add: ids_from_def)
qed (simp_all add: ids_from_def)

lemma ids_from_step:
  assumes "ids_from N st" and "set (clock_of ev) \<inter> N = {}"
  shows "ids_from (N \<union> set (clock_of ev)) (step P st ev)"
proof (cases ev)
  case (Add t now stamp)
  let ?st = "st\<lparr>inputValue := t\<rparr>"
  from assms(1) have u: "ids_from N ?st" by (simp add: ids_from_def)
  from assms(2) Add have fresh: "now \<notin> N" by simp
  from tasks_add_cases [of P now stamp ?st] show ?thesis
  proof
    assume "tasks (fst (handleAddTask P now stamp ?st)) = tasks ?st"
    with u have "ids_from N (fst (handleAddTask P now stamp ?st))" by (simp add: ids_from_def)
    with Add show ?thesis by (auto intro: ids_from_mono)
  next
    assume "\<exists>xs. tasks ?st = JArr xs \<and> some_same_text (trim (inputValue ?st)) xs = Inr False
        \<and> tasks (fst (handleAddTask P now stamp ?st)) =
             JArr (xs @ [newTask now (trim (inputValue ?st)) stamp])"
    then obtain xs where xs: "tasks ?st = JArr xs"
      "tasks (fst (handleAddTask P now stamp ?st)) = JArr (xs @ [newTask now (trim (inputValue ?st)) stamp])"
      by blast
    from u xs(1) have d: "distinct (map id_key xs)" "set (map id_key xs) \<subseteq> Some ` N"
      by (simp_all add: ids_from_def)
    from d(2) fresh have "Some now \<notin> set (map id_key xs)" by auto
    with d xs(2) Add show ?thesis
      by (auto simp: ids_from_def)
  qed
next
  case (Toggle taskId)
  from tasks_toggle_cases [of P taskId st] have "ids_from N (step P st ev)"
  proof
    assume "tasks (fst (toggleTaskCompletion P taskId st)) = tasks st"
    with assms(1) Toggle show ?thesis by (simp add: ids_from_def)
  next
    assume "\<exists>xs i. tasks st = JArr xs \<and> i < length xs
        \<and> tasks (fst (toggleTaskCompletion P taskId st)) = JArr (xs[i := flip_completed (xs ! i)])"
    then obtain xs i where xs: "tasks st = JArr xs" "i < length xs"
      "tasks (fst (toggleTaskCompletion P taskId st)) = JArr (xs[i := flip_completed (xs ! i)])"
      by blast
    have "map id_key (xs[i := flip_completed (xs ! i)]) = map id_key xs"
      using xs(2) by (intro map_update_same) simp_all
    with assms(1) xs Toggle show ?thesis by (simp add: ids_from_def)
  qed
  with Toggle show ?thesis by simp
next
  case (Delete elementFound taskId)
  with assms(1) show ?thesis by (simp add: ids_from_def)
next
  case (Fire i)
  from tasks_fire_cases [of P i st] have "ids_from N (step P st ev)"
  proof
    assume "tasks (fst (fire_timer P i st)) = tasks st"
    with assms(1) Fire show ?thesis by (simp add: ids_from_def)
  next
    assume "\<exists>xs p. tasks st = JArr xs \<and> tasks (fst (fire_timer P i st)) = JArr (filter p xs)"
    then obtain xs p where xs: "tasks st = JArr xs" "tasks (fst (fire_timer P i st)) = JArr (filter p xs)"
      by blast
    from assms(1) xs(1) have d: "distinct (map id_key xs)" "set (map id_key xs) \<subseteq> Some ` N"
      by (simp_all add: ids_from_def)
    from d(2) have "set (map id_key (filter p xs)) \<subseteq> Some ` N" by auto
    moreover from d(1) have "distinct (map id_key (filter p xs))" by (rule distinct_map_filter)
    ultimately show ?thesis using xs(2) Fire by (simp add: ids_from_def)
  qed
  with Fire show ?thesis by simp
qed

lemma ids_from_run:
  "ids_from N st \<Longrightarrow> distinct (concat (map clock_of evs)) \<Longrightarrow> set (concat (map clock_of evs)) \<inter> N = {}
    \<Longrightarrow> ids_from (N \<union> set (concat (map clock_of evs))) (run P evs st)"
proof (induction evs arbitrary: N st)
  case Nil
  then show ?case by (simp add: run_def)
next
  case (Cons ev evs)
  from Cons.prems have 1: "ids_from (N \<union> set (clock_of ev)) (step P st ev)"
    by (intro ids_from_step) auto
  from Cons.prems have 2: "distinct (concat (map clock_of evs))" by simp
  from Cons.prems have 3: "set (concat (map clock_of evs)) \<inter> (N \<union> set (clock_of ev)) = {}"
    by auto
  from Cons.IH [OF 1 2 3] show ?case
    by (simp add: run_def Un_assoc)
qed

text \<open>When \<open>Date.now()\<close> gave a different value at every add, the ids differ pairwise.\<close>

lemma ids_unique_if_clock_ticks:
  assumes "distinct (concat (map clock_of evs))"
  shows "\<exists>xs. tasks (run P evs (initial sto)) = JArr xs \<and> distinct (map id_key xs)"
proof -
  have "ids_from {} (initial sto)" by (simp add: ids_from_def initial_def)
  from ids_from_run [OF this assms, of P] show ?thesis
    by (cases "tasks (run P evs (initial sto))") (simp_all add: ids_from_def)
qed

text \<open>
  C2: after every sequence of adds, deletes and toggles from the empty collection, no two
  tasks have the same id, and no two have texts equal up to case. The second half holds
  (above). The first does not: the id is the value of \<open>Date.now()\<close>, and two adds within
  the same millisecond give two tasks the same id.
\<close>

theorem same_millisecond_same_id:
  "tasks (run browser [Add ''Write report'' 1700000000000 ''2023-11-14T22:13:20.000Z'',
                       Add ''Call dentist'' 1700000000000 ''2023-11-14T22:13:20.000Z'']
            (initial Map.empty)) =
     JArr [newTask 1700000000000 ''Write report'' ''2023-11-14T22:13:20.000Z'',
           newTask 1700000000000 ''Call dentist'' ''2023-11-14T22:13:20.000Z'']
   \<and> property (newTask 1700000000000 ''Write report'' ''2023-11-14T22:13:20.000Z'') ''id'' =
     property (newTask 1700000000000 ''Call dentist'' ''2023-11-14T22:13:20.000Z'') ''id''"
  by (simp add: run_def handleAddTask_def initial_def Let_def trim_report trim_dentist lower_report_dentist)
     (simp add: newTask_def lower_report_dentist)

end
